theory Spec2Isabelle
  imports Complex_Main
begin

section \<open>JavaScript values and objects\<close>

text \<open>
  The values the store handles. Numbers that serve as identifiers, counters and
  millisecond readings are integers (NaN and fractions are not among them); functions
  and rendered elements are opaque and named by a number; \<open>Obj\<close> is a plain object
  given by its properties. Strict equality \<open>===\<close> is only used to compare an
  identifier with a resolved identifier, which is a number or a string, so it is
  equality of values.
\<close>

datatype jsval =
    Undefined
  | Null
  | Bool bool
  | Num int
  | Str string
  | Fun nat
  | Element nat
  | Obj "(string \<times> jsval) list"

text \<open>An object is a finite map from property names to values (\<open>ToastT\<close>,
  \<open>ToastToDismiss\<close>, \<open>CreateToastData\<close>, \<open>ExternalToast\<close>).\<close>

type_synonym obj = "string \<rightharpoonup> jsval"

text \<open>Property read \<open>o.k\<close>: a missing property reads as \<open>undefined\<close>.\<close>

definition property :: "obj \<Rightarrow> string \<Rightarrow> jsval" where
  "property ob k = (case ob k of None \<Rightarrow> Undefined | Some v \<Rightarrow> v)"

text \<open>Truthiness, as \<open>!x\<close> and \<open>x || y\<close> read it.\<close>

fun truthy :: "jsval \<Rightarrow> bool" where
  "truthy Undefined = False"
| "truthy Null = False"
| "truthy (Bool b) = b"
| "truthy (Num n) = (n \<noteq> 0)"
| "truthy (Str s) = (s \<noteq> [])"
| "truthy (Fun f) = True"
| "truthy (Element e) = True"
| "truthy (Obj ps) = True"

text \<open>The operator \<open>a ?? b\<close>.\<close>

definition nullish :: "jsval \<Rightarrow> jsval \<Rightarrow> jsval" where
  "nullish a b = (if a = Undefined \<or> a = Null then b else a)"

fun is_number :: "jsval \<Rightarrow> bool" where
  "is_number (Num n) = True"
| "is_number v = False"

fun is_nonempty_string :: "jsval \<Rightarrow> bool" where
  "is_nonempty_string (Str s) = (0 < length s)"
| "is_nonempty_string v = False"

fun is_function :: "jsval \<Rightarrow> bool" where
  "is_function (Fun f) = True"
| "is_function v = False"

section \<open>The notification store (state.ts)\<close>

text \<open>
  A subscriber is a function object, named by a number. \<open>subscribers\<close> is a
  JavaScript \<open>Set\<close>: its entries in insertion order, a deleted entry leaving an
  empty slot (\<open>None\<close>), as ECMAScript keeps the set's data. \<open>delivered\<close> records
  every call of a subscriber with the object it was given, in call order.
\<close>

type_synonym sub = nat

definition set_add :: "'a \<Rightarrow> 'a option list \<Rightarrow> 'a option list" where
  "set_add x es = (if Some x \<in> set es then es else es @ [Some x])"

definition set_delete :: "'a \<Rightarrow> 'a option list \<Rightarrow> 'a option list" where
  "set_delete x es = map (\<lambda>e. if e = Some x then None else e) es"

fun entries :: "'a option list \<Rightarrow> 'a list" where
  "entries [] = []"
| "entries (None # es) = entries es"
| "entries (Some x # es) = x # entries es"

record store =
  toastsCounter :: int
  subscribers :: "sub option list"
  toasts :: "obj list"
  delivered :: "(sub \<times> obj) list"

definition initial_store :: store where
  "initial_store = \<lparr> toastsCounter = 1, subscribers = [], toasts = [], delivered = [] \<rparr>"

definition subscribe :: "sub \<Rightarrow> store \<Rightarrow> store" where
  "subscribe subscriber st = st\<lparr> subscribers := set_add subscriber (subscribers st) \<rparr>"

text \<open>The function \<open>subscribe\<close> returns.\<close>

definition unsubscribe :: "sub \<Rightarrow> store \<Rightarrow> store" where
  "unsubscribe subscriber st = st\<lparr> subscribers := set_delete subscriber (subscribers st) \<rparr>"

text \<open>
  \<open>for (const subscriber of subscribers) subscriber(data)\<close>, for subscribers that
  only take the object (the Toaster's subscriber calls \<open>setState\<close> and returns): each
  entry of the set is called once, in insertion order.
\<close>

definition for_subscribers :: "obj \<Rightarrow> store \<Rightarrow> store" where
  "for_subscribers data st =
     st\<lparr> delivered := delivered st @ map (\<lambda>s. (s, data)) (entries (subscribers st)) \<rparr>"

definition publish :: "obj \<Rightarrow> store \<Rightarrow> store" where
  "publish data st = for_subscribers data st"

definition addToast :: "obj \<Rightarrow> store \<Rightarrow> store" where
  "addToast data st = (let st1 = publish data st in st1\<lparr> toasts := toasts st1 @ [data] \<rparr>)"

text \<open>The two objects \<open>create\<close> builds from a stored toast and the new data.\<close>

definition merged_published :: "obj \<Rightarrow> obj \<Rightarrow> jsval \<Rightarrow> obj" where
  "merged_published toast data ident =
     (toast ++ data)(''id'' \<mapsto> ident, ''title'' \<mapsto> property data ''message'')"

definition merged_stored :: "obj \<Rightarrow> obj \<Rightarrow> jsval \<Rightarrow> jsval \<Rightarrow> obj" where
  "merged_stored toast data ident dismissible =
     (toast ++ data)(''id'' \<mapsto> ident, ''dismissible'' \<mapsto> dismissible,
        ''title'' \<mapsto> property data ''message'')"

text \<open>The loop of \<open>create\<close> over the indices of \<open>toasts\<close>.\<close>

function create_loop :: "obj \<Rightarrow> jsval \<Rightarrow> jsval \<Rightarrow> nat \<Rightarrow> bool \<Rightarrow> store \<Rightarrow> bool \<times> store" where
  "create_loop data ident dismissible i alreadyExists st =
     (if i < length (toasts st) then
        (if property (toasts st ! i) ''id'' = ident then
           create_loop data ident dismissible (Suc i) True
             ((publish (merged_published (toasts st ! i) data ident) st)
                \<lparr> toasts := (toasts st)[i := merged_stored (toasts st ! i) data ident dismissible] \<rparr>)
         else create_loop data ident dismissible (Suc i) alreadyExists st)
      else (alreadyExists, st))"
  by pat_completeness auto
termination
  by (relation "measure (\<lambda>(data, ident, dismissible, i, alreadyExists, st). length (toasts st) - i)")
     (auto simp: publish_def for_subscribers_def)

text \<open>\<open>toastsCounter++\<close>: the value before the increment, and the store after it.\<close>

definition next_counter :: "store \<Rightarrow> jsval \<times> store" where
  "next_counter st = (Num (toastsCounter st), st\<lparr> toastsCounter := toastsCounter st + 1 \<rparr>)"

definition create :: "obj \<Rightarrow> store \<Rightarrow> jsval \<times> store" where
  "create data st =
     (let message = property data ''message'';
          rest = data(''message'' := None);
          (ident, st1) =
            (if is_number (property data ''id'') \<or> is_nonempty_string (property data ''id'')
             then (property data ''id'', st) else next_counter st);
          dismissible = nullish (property data ''dismissible'') (Bool True);
          (alreadyExists, st2) = create_loop data ident dismissible 0 False st1
      in if \<not> alreadyExists
         then (ident, addToast (([''title'' \<mapsto> message] ++ rest)
                                  (''dismissible'' \<mapsto> dismissible, ''id'' \<mapsto> ident)) st2)
         else (ident, st2))"

text \<open>The signal \<open>{ id, dismiss: true }\<close>.\<close>

definition dismiss_signal :: "jsval \<Rightarrow> obj" where
  "dismiss_signal ident = [''id'' \<mapsto> ident, ''dismiss'' \<mapsto> Bool True]"

text \<open>\<open>dismiss(id?)\<close>; a call without argument passes \<open>undefined\<close>.\<close>

definition dismiss :: "jsval \<Rightarrow> store \<Rightarrow> jsval \<times> store" where
  "dismiss ident st =
     (if \<not> truthy ident
      then (ident, fold (\<lambda>toast s. for_subscribers (dismiss_signal (property toast ''id'')) s) (toasts st) st)
      else (ident, for_subscribers (dismiss_signal ident) st))"


definition getHistory :: "store \<Rightarrow> obj list" where
  "getHistory st = toasts st"

subsection \<open>Dispatch when callbacks change the subscriber set\<close>






section \<open>The height tracker (heights.tsx)\<close>

datatype Position = top_left | top_center | top_right | bottom_left | bottom_center | bottom_right

record HeightT =
  height :: real
  toastId :: jsval
  position :: "Position option"

definition Heights_add :: "HeightT \<Rightarrow> HeightT list \<Rightarrow> HeightT list" where
  "Heights_add h hs = h # hs"

definition Heights_remove :: "jsval \<Rightarrow> HeightT list \<Rightarrow> HeightT list" where
  "Heights_remove ident hs = filter (\<lambda>h. toastId h \<noteq> ident) hs"

definition Heights_front :: "HeightT list \<Rightarrow> real option" where
  "Heights_front hs = (case hs of [] \<Rightarrow> None | h # _ \<Rightarrow> Some (height h))"

text \<open>The loop of \<open>offset\<close>: \<open>acc\<close> is the local variable \<open>offset\<close>.\<close>

fun offset_loop :: "HeightT list \<Rightarrow> jsval \<Rightarrow> real \<Rightarrow> real \<Rightarrow> real" where
  "offset_loop [] ident gap acc = acc"
| "offset_loop (h # hs) ident gap acc =
     (if toastId h = ident then acc else offset_loop hs ident gap (acc + (height h + gap)))"

definition Heights_offset :: "HeightT list \<Rightarrow> jsval \<Rightarrow> real \<Rightarrow> real" where
  "Heights_offset hs ident gap = offset_loop hs ident gap 0"

section \<open>The toast component (sonner.tsx)\<close>

definition GAP :: real where "GAP = 14"
definition TOAST_LIFETIME :: int where "TOAST_LIFETIME = 4000"
definition SWIPE_THRESHOLD :: real where "SWIPE_THRESHOLD = 20"
definition TIME_BEFORE_UNMOUNT :: int where "TIME_BEFORE_UNMOUNT = 200"

text \<open>
  Division and comparison of JavaScript numbers where the divisor may be zero:
  \<open>x / 0\<close> is an infinity or NaN, and NaN compares false.
\<close>

datatype jsnum = Finite real | PosInfinity | NegInfinity | NaN

definition js_div :: "real \<Rightarrow> real \<Rightarrow> jsnum" where
  "js_div a b =
     (if b \<noteq> 0 then Finite (a / b)
      else if 0 < a then PosInfinity else if a < 0 then NegInfinity else NaN)"

fun js_gt :: "jsnum \<Rightarrow> real \<Rightarrow> bool" where
  "js_gt (Finite x) c = (c < x)"
| "js_gt PosInfinity c = True"
| "js_gt NegInfinity c = False"
| "js_gt NaN c = False"

fun starts_with_top :: "Position \<Rightarrow> bool" where
  "starts_with_top top_left = True"
| "starts_with_top top_center = True"
| "starts_with_top top_right = True"
| "starts_with_top p = False"

datatype timer_callback = Autoclose | RemoveToast
datatype toast_callback = OnDismiss | OnAutoClose

text \<open>
  One mounted \<open>Toast\<close>: its private fields, the props it reads, the list held by the
  \<open>Heights\<close> object it shares, the style properties and attributes of its element,
  the pending timeouts (handle, callback, delay) and the toast callbacks invoked.
  \<open>setTimeout\<close> hands out positive handles.
\<close>

record Toast =
  closeTimerStartTime :: "int option"
  disabled :: bool
  dismissible :: bool
  dragStartTime :: "int option"
  offsetBeforeRemove :: "real option"
  pointerStart :: "real option"
  remainingTime :: "int option"
  removed :: bool
  swipedOut :: bool
  timeoutId :: "nat option"
  toast_id :: jsval
  toast_duration :: "int option"
  props_duration :: "int option"
  props_gap :: "real option"
  props_position :: Position
  heights :: "HeightT list"
  style_offset :: "real option"
  style_swipe_amount :: "real option"
  attributes :: "string set"
  timers :: "(nat \<times> timer_callback \<times> int) list"
  last_handle :: nat
  invoked :: "toast_callback list"

definition setTimeout :: "timer_callback \<Rightarrow> int \<Rightarrow> Toast \<Rightarrow> nat \<times> Toast" where
  "setTimeout cb delay t =
     (Suc (last_handle t),
      t\<lparr> last_handle := Suc (last_handle t),
         timers := timers t @ [(Suc (last_handle t), cb, delay)] \<rparr>)"

definition clearTimeout :: "nat \<Rightarrow> Toast \<Rightarrow> Toast" where
  "clearTimeout h t = t\<lparr> timers := filter (\<lambda>(h', cb, delay). h' \<noteq> h) (timers t) \<rparr>"

text \<open>Truthiness of an optional number: set and not zero.\<close>

definition truthy_num :: "'a::zero option \<Rightarrow> bool" where
  "truthy_num x = (case x of None \<Rightarrow> False | Some v \<Rightarrow> v \<noteq> 0)"

definition updateOffset :: "Toast \<Rightarrow> real \<times> Toast" where
  "updateOffset t =
     (let offset =
            (if removed t \<and> truthy_num (offsetBeforeRemove t)
             then the (offsetBeforeRemove t)
             else Heights_offset (heights t) (toast_id t)
                    (case props_gap t of None \<Rightarrow> GAP | Some g \<Rightarrow> g))
      in (offset, t\<lparr> style_offset := Some offset \<rparr>))"

text \<open>\<open>heights.remove(id)\<close> and the \<open>HeightEvent\<close> it announces, which this toast
  handles by \<open>updateOffset\<close>.\<close>

definition heights_remove_announce :: "Toast \<Rightarrow> Toast" where
  "heights_remove_announce t =
     snd (updateOffset (t\<lparr> heights := Heights_remove (toast_id t) (heights t) \<rparr>))"

definition deleteToast :: "Toast \<Rightarrow> Toast" where
  "deleteToast t =
     (let t1 = t\<lparr> removed := True, attributes := insert ''data-removed'' (attributes t) \<rparr>;
          (offset, t2) = updateOffset t1;
          t3 = t2\<lparr> offsetBeforeRemove := Some offset \<rparr>;
          t4 = heights_remove_announce t3
      in snd (setTimeout RemoveToast TIME_BEFORE_UNMOUNT t4))"

definition startAutocloseTimer :: "int \<Rightarrow> Toast \<Rightarrow> Toast" where
  "startAutocloseTimer now t =
     (if \<not> truthy_num (timeoutId t) then
        (let t1 = t\<lparr> closeTimerStartTime := Some now \<rparr>;
             r = (case remainingTime t1 of
                    Some r \<Rightarrow> r
                  | None \<Rightarrow> (case toast_duration t1 of
                               Some d \<Rightarrow> d
                             | None \<Rightarrow> (case props_duration t1 of
                                          Some d \<Rightarrow> d
                                        | None \<Rightarrow> TOAST_LIFETIME)));
             t2 = t1\<lparr> remainingTime := Some r \<rparr>;
             (h, t3) = setTimeout Autoclose r t2
         in t3\<lparr> timeoutId := Some h \<rparr>)
      else t)"

definition pauseAutocloseTimer :: "int \<Rightarrow> Toast \<Rightarrow> Toast" where
  "pauseAutocloseTimer now t =
     (if truthy_num (closeTimerStartTime t) \<and> truthy_num (remainingTime t)
         \<and> truthy_num (timeoutId t)
      then
        (let elapsed = now - the (closeTimerStartTime t);
             t1 = t\<lparr> remainingTime := Some (max 0 (the (remainingTime t) - elapsed)) \<rparr>;
             t2 = clearTimeout (the (timeoutId t1)) t1
         in t2\<lparr> timeoutId := None \<rparr>)
      else t)"

definition autoclose :: "Toast \<Rightarrow> Toast" where
  "autoclose t = deleteToast (t\<lparr> invoked := invoked t @ [OnAutoClose] \<rparr>)"

text \<open>
  The events \<open>handleEvent\<close> is modelled for; clicks on the toast's buttons are left
  out. A pointer-down carries whether its target is a button and its \<open>y\<close>; a
  pointer-move carries \<open>clientY\<close> and whether text is selected; a visibility change
  carries whether the document is hidden. \<open>now\<close> is the reading of \<open>Date.now()\<close>
  when the event is handled. Pixel amounts and the velocity are real numbers: the
  rounding of floating-point arithmetic is not modelled.
\<close>

datatype event =
    HeightEvent
  | ExpandEvent bool
  | InteractEvent bool
  | PointerDown bool real
  | PointerMove real bool
  | PointerUp
  | VisibilityChange bool

fun handleEvent :: "int \<Rightarrow> event \<Rightarrow> Toast \<Rightarrow> Toast" where
  "handleEvent now HeightEvent t = snd (updateOffset t)"
| "handleEvent now (ExpandEvent expanded) t =
     (let t1 = t\<lparr> attributes :=
                    (if expanded then insert ''data-expanded'' (attributes t)
                     else attributes t - {''data-expanded''}) \<rparr>
      in if expanded then pauseAutocloseTimer now t1 else startAutocloseTimer now t1)"
| "handleEvent now (InteractEvent interacting) t =
     (if interacting then pauseAutocloseTimer now t else startAutocloseTimer now t)"
| "handleEvent now (PointerDown target_is_button y) t =
     (if disabled t \<or> \<not> dismissible t then t
      else
        (let t1 = t\<lparr> dragStartTime := Some now \<rparr>;
             (offset, t2) = updateOffset t1;
             t3 = t2\<lparr> offsetBeforeRemove := Some offset \<rparr>
         in if target_is_button
            then t3\<lparr> attributes := insert ''data-swiping'' (attributes t3),
                     pointerStart := Some y \<rparr>
            else t3))"
| "handleEvent now (PointerMove clientY isHighlighted) t =
     (case pointerStart t of
        None \<Rightarrow> t
      | Some start_y \<Rightarrow>
          if dismissible t then
            (let yPosition = clientY - start_y;
                 swipeAmount = (if starts_with_top (props_position t)
                                then min 0 yPosition else max 0 yPosition);
                 t1 = (if 0 < \<bar>swipeAmount\<bar>
                       then t\<lparr> attributes := insert ''data-swiped'' (attributes t) \<rparr> else t)
             in if isHighlighted then t1 else t1\<lparr> style_swipe_amount := Some swipeAmount \<rparr>)
          else t)"
| "handleEvent now PointerUp t =
     (if swipedOut t = False \<and> dismissible t then
        (let t1 = t\<lparr> pointerStart := None \<rparr>;
             swipeAmount = (case style_swipe_amount t1 of None \<Rightarrow> 0 | Some a \<Rightarrow> a);
             timeTaken = now - (case dragStartTime t1 of None \<Rightarrow> 0 | Some d \<Rightarrow> d);
             velocity = js_div \<bar>swipeAmount\<bar> (real_of_int timeTaken)
         in if SWIPE_THRESHOLD \<le> \<bar>swipeAmount\<bar> \<or> js_gt velocity (11 / 100) then
              (let (offset, t2) = updateOffset t1;
                   t3 = t2\<lparr> offsetBeforeRemove := Some offset,
                             invoked := invoked t2 @ [OnDismiss] \<rparr>;
                   t4 = deleteToast t3
               in t4\<lparr> swipedOut := True,
                       attributes := insert ''data-swipe-out'' (attributes t4) - {''data-swiped''} \<rparr>)
            else t1\<lparr> style_swipe_amount := Some 0,
                     attributes := attributes t1 - {''data-swiping''} \<rparr>)
      else t)"
| "handleEvent now (VisibilityChange hidden) t =
     (if hidden then pauseAutocloseTimer now t else startAutocloseTimer now t)"

section \<open>The promise adapter (state.ts)\<close>

text \<open>How an awaited promise settles.\<close>

datatype outcome = Resolved jsval | Rejected jsval

fun isValidElement :: "jsval \<Rightarrow> bool" where
  "isValidElement (Element e) = True"
| "isValidElement v = False"

fun isHttpResponse :: "jsval \<Rightarrow> bool" where
  "isHttpResponse (Obj ps) =
     ((case map_of ps ''ok'' of Some (Bool b) \<Rightarrow> True | _ \<Rightarrow> False) \<and>
      (case map_of ps ''status'' of Some (Num n) \<Rightarrow> True | _ \<Rightarrow> False))"
| "isHttpResponse v = False"

fun response_ok :: "jsval \<Rightarrow> bool" where
  "response_ok (Obj ps) = (map_of ps ''ok'' = Some (Bool True))"
| "response_ok v = False"

fun response_status :: "jsval \<Rightarrow> int" where
  "response_status (Obj ps) = (case map_of ps ''status'' of Some (Num n) \<Rightarrow> n | _ \<Rightarrow> 0)"
| "response_status v = 0"

fun show_nat :: "nat \<Rightarrow> string" where
  "show_nat n =
     (if n < 10 then [char_of (48 + n)] else show_nat (n div 10) @ [char_of (48 + n mod 10)])"

definition show_int :: "int \<Rightarrow> string" where
  "show_int i = (if i < 0 then CHR ''-'' # show_nat (nat (- i)) else show_nat (nat i))"

definition http_error_text :: "jsval \<Rightarrow> jsval" where
  "http_error_text response = Str (''HTTP error! status: '' @ show_int (response_status response))"

text \<open>
  \<open>typeof x === "function" ? await x(arg) : x\<close>. \<open>calls f arg\<close> is how the awaited
  call of the function value \<open>Fun f\<close> on \<open>arg\<close> settles: a function may throw, or
  return a promise that rejects.
\<close>

definition resolve_value :: "(nat \<Rightarrow> jsval \<Rightarrow> outcome) \<Rightarrow> jsval \<Rightarrow> jsval \<Rightarrow> outcome" where
  "resolve_value calls x arg = (case x of Fun f \<Rightarrow> calls f arg | _ \<Rightarrow> Resolved x)"

text \<open>
  The variables the handlers of \<open>promise\<close> share (\<open>id\<close>, \<open>shouldDismiss\<close>,
  \<open>result\<close>), whether \<open>data.finally\<close> was called, and the store.
\<close>

record adapter =
  loading_id :: jsval
  shouldDismiss :: bool
  result :: "outcome option"
  finally_called :: bool
  store_of :: store

definition create_in :: "obj \<Rightarrow> adapter \<Rightarrow> adapter" where
  "create_in data a = a\<lparr> store_of := snd (create data (store_of a)) \<rparr>"

text \<open>
  The three lines each replacing branch shares: resolve the message from \<open>option\<close>,
  resolve the description, then \<open>create({ id, type, message, description })\<close>. An
  awaited call that rejects makes the handler reject there.
\<close>

definition replace_with ::
  "(nat \<Rightarrow> jsval \<Rightarrow> outcome) \<Rightarrow> obj \<Rightarrow> string \<Rightarrow> jsval \<Rightarrow> jsval \<Rightarrow> adapter \<Rightarrow> outcome \<times> adapter" where
  "replace_with calls data type option arg a =
     (case resolve_value calls option arg of
        Rejected e \<Rightarrow> (Rejected e, a)
      | Resolved message \<Rightarrow>
          (case resolve_value calls (property data ''description'') arg of
             Rejected e \<Rightarrow> (Rejected e, a)
           | Resolved description \<Rightarrow>
               (Resolved Undefined,
                create_in [''id'' \<mapsto> loading_id a, ''type'' \<mapsto> Str type,
                           ''message'' \<mapsto> message, ''description'' \<mapsto> description] a)))"

definition then_handler ::
  "(nat \<Rightarrow> jsval \<Rightarrow> outcome) \<Rightarrow> obj \<Rightarrow> jsval \<Rightarrow> adapter \<Rightarrow> outcome \<times> adapter" where
  "then_handler calls data response a =
     (let a1 = a\<lparr> result := Some (Resolved response) \<rparr> in
      if isValidElement response then
        (Resolved Undefined,
         create_in [''id'' \<mapsto> loading_id a1, ''type'' \<mapsto> Str ''default'', ''message'' \<mapsto> response]
           (a1\<lparr> shouldDismiss := False \<rparr>))
      else if isHttpResponse response \<and> \<not> response_ok response then
        replace_with calls data ''error'' (property data ''error'') (http_error_text response)
          (a1\<lparr> shouldDismiss := False \<rparr>)
      else if property data ''success'' \<noteq> Undefined then
        replace_with calls data ''success'' (property data ''success'') response
          (a1\<lparr> shouldDismiss := False \<rparr>)
      else (Resolved Undefined, a1))"

definition catch_handler ::
  "(nat \<Rightarrow> jsval \<Rightarrow> outcome) \<Rightarrow> obj \<Rightarrow> jsval \<Rightarrow> adapter \<Rightarrow> outcome \<times> adapter" where
  "catch_handler calls data error a =
     (let a1 = a\<lparr> result := Some (Rejected error) \<rparr> in
      if property data ''error'' \<noteq> Undefined then
        replace_with calls data ''error'' (property data ''error'') error
          (a1\<lparr> shouldDismiss := False \<rparr>)
      else (Resolved Undefined, a1))"

definition finally_handler :: "obj \<Rightarrow> adapter \<Rightarrow> adapter" where
  "finally_handler data a =
     (let a1 = (if shouldDismiss a
                then a\<lparr> store_of := snd (dismiss (loading_id a) (store_of a)),
                        loading_id := Undefined \<rparr>
                else a)
      in a1\<lparr> finally_called :=
                (property data ''finally'' \<noteq> Undefined \<and> property data ''finally'' \<noteq> Null) \<rparr>)"

text \<open>The synchronous part of \<open>promise\<close>, up to the call of \<open>p.then\<close>.\<close>

definition promise_begin :: "jsval \<Rightarrow> obj \<Rightarrow> store \<Rightarrow> adapter" where
  "promise_begin p data st =
     (let (ident, st1) =
            (if property data ''loading'' \<noteq> Undefined then
               create (data(''promise'' \<mapsto> p, ''type'' \<mapsto> Str ''loading'',
                            ''message'' \<mapsto> property data ''loading'',
                            ''description'' \<mapsto>
                              (if \<not> is_function (property data ''description'')
                               then property data ''description'' else Undefined))) st
             else (Undefined, st))
      in \<lparr> loading_id = ident, shouldDismiss = (ident \<noteq> Undefined), result = None,
           finally_called = False, store_of = st1 \<rparr>)"

text \<open>The chain \<open>p.then(...).catch(...).finally(...)\<close> once \<open>p\<close> has settled.\<close>

definition promise_settle ::
  "(nat \<Rightarrow> jsval \<Rightarrow> outcome) \<Rightarrow> obj \<Rightarrow> outcome \<Rightarrow> adapter \<Rightarrow> adapter" where
  "promise_settle calls data settled a =
     (let (o1, a1) = (case settled of
                        Resolved response \<Rightarrow> then_handler calls data response a
                      | Rejected error \<Rightarrow> (Rejected error, a));
          (o2, a2) = (case o1 of
                        Resolved v \<Rightarrow> (o1, a1)
                      | Rejected error \<Rightarrow> catch_handler calls data error a1)
      in finally_handler data a2)"

text \<open>
  \<open>promise(p, data?)\<close> run to completion with nothing else touching the store in
  between; without \<open>data\<close> it returns at once (\<open>None\<close>).
\<close>

definition promise ::
  "(nat \<Rightarrow> jsval \<Rightarrow> outcome) \<Rightarrow> jsval \<Rightarrow> outcome \<Rightarrow> obj option \<Rightarrow> store \<Rightarrow> adapter option" where
  "promise calls p settled data st =
     (case data of
        None \<Rightarrow> None
      | Some d \<Rightarrow> Some (promise_settle calls d settled (promise_begin p d st)))"

section \<open>Derived notions for the store\<close>

text \<open>The identifier of a stored object, the identifier \<open>create\<close> resolves for its
  data, the store after the counter was drawn (or not), the object \<open>create\<close> appends
  when no stored toast matches, and the deliveries of one object to every subscriber.\<close>

definition id_of :: "obj \<Rightarrow> jsval" where
  "id_of toast = property toast ''id''"

definition resolve_id :: "obj \<Rightarrow> store \<Rightarrow> jsval" where
  "resolve_id data st =
     (if is_number (property data ''id'') \<or> is_nonempty_string (property data ''id'')
      then property data ''id'' else Num (toastsCounter st))"

definition counter_after :: "obj \<Rightarrow> store \<Rightarrow> store" where
  "counter_after data st =
     (if is_number (property data ''id'') \<or> is_nonempty_string (property data ''id'')
      then st else st\<lparr> toastsCounter := toastsCounter st + 1 \<rparr>)"

definition new_record :: "obj \<Rightarrow> jsval \<Rightarrow> obj" where
  "new_record data ident =
     ([''title'' \<mapsto> property data ''message''] ++ data(''message'' := None))
        (''dismissible'' \<mapsto> nullish (property data ''dismissible'') (Bool True),
         ''id'' \<mapsto> ident)"

definition to_all :: "sub option list \<Rightarrow> obj \<Rightarrow> (sub \<times> obj) list" where
  "to_all subs data = map (\<lambda>s. (s, data)) (entries subs)"

text \<open>A sequence of \<open>create\<close> calls.\<close>

fun creates :: "obj list \<Rightarrow> store \<Rightarrow> store" where
  "creates [] st = st"
| "creates (data # rest) st = creates rest (snd (create data st))"

section \<open>A swipe gesture handed to the toast (sonner.tsx)\<close>





text \<open>
  A gesture is a pointer-down at height \<open>y0\<close> and clock reading \<open>down_at\<close>, on a button
  of the toast or not, then pointer-moves, each with its clock reading, its \<open>clientY\<close>
  and whether text is selected in the page at that moment, then a pointer-up at clock
  reading \<open>up_at\<close>. \<open>swipe\<close> hands these events to \<open>handleEvent\<close> in order. The
  component itself registers listeners for \<open>expand\<close>, \<open>interact\<close>, height changes,
  \<open>visibilitychange\<close> and clicks on its buttons only, none for pointer events, so
  \<open>swipe\<close> describes the handler when it is given the events, not the mounted component.
\<close>

fun pointer_moves :: "(int \<times> real \<times> bool) list \<Rightarrow> Toast \<Rightarrow> Toast" where
  "pointer_moves [] t = t"
| "pointer_moves ((tm, clientY, isHighlighted) # moves) t =
     pointer_moves moves (handleEvent tm (PointerMove clientY isHighlighted) t)"

definition swipe ::
  "Toast \<Rightarrow> bool \<Rightarrow> real \<Rightarrow> int \<Rightarrow> (int \<times> real \<times> bool) list \<Rightarrow> int \<Rightarrow> Toast" where
  "swipe t on_button y0 down_at moves up_at =
     handleEvent up_at PointerUp
       (pointer_moves moves (handleEvent down_at (PointerDown on_button y0) t))"


section \<open>Example inputs\<close>

text \<open>The height list \<open>[{a,40},{b,30},{c,20}]\<close>, front to back.\<close>

definition abc_heights :: "HeightT list" where
  "abc_heights =
     [\<lparr> height = 40, toastId = Str ''a'', position = None \<rparr>,
      \<lparr> height = 30, toastId = Str ''b'', position = None \<rparr>,
      \<lparr> height = 20, toastId = Str ''c'', position = None \<rparr>]"

text \<open>A toast just constructed, not dismissed, with no timer: the fields as the class
  initialises them, for a toast of the given identifier in the lane \<open>bottom-right\<close>.\<close>

definition fresh_toast :: "jsval \<Rightarrow> HeightT list \<Rightarrow> Toast" where
  "fresh_toast ident hs =
     \<lparr> closeTimerStartTime = None, disabled = False, dismissible = True,
       dragStartTime = None, offsetBeforeRemove = None, pointerStart = None,
       remainingTime = None, removed = False, swipedOut = False, timeoutId = None,
       toast_id = ident, toast_duration = None, props_duration = None, props_gap = None,
       props_position = bottom_right, heights = hs, style_offset = None,
       style_swipe_amount = None, attributes = {}, timers = [], last_handle = 0,
       invoked = [] \<rparr>"




text \<open>The front toast \<open>a\<close> of the stack \<open>[{a,40},{b,30}]\<close>.\<close>

definition front_toast :: Toast where
  "front_toast =
     fresh_toast (Str ''a'')
       [\<lparr> height = 40, toastId = Str ''a'', position = None \<rparr>,
        \<lparr> height = 30, toastId = Str ''b'', position = None \<rparr>]"

text \<open>A store with one subscriber and two toasts, of identifiers 0 and 5.\<close>

definition store_0_5 :: store where
  "store_0_5 =
     snd (create [''id'' \<mapsto> Num 5, ''message'' \<mapsto> Str ''second'']
       (snd (create [''id'' \<mapsto> Num 0, ''message'' \<mapsto> Str ''first'']
          (subscribe 1 initial_store))))"

text \<open>A store holding the toast \<open>{ id: 1, title: "Saved" }\<close>, and data for a
  second \<open>create\<close> on the same identifier that gives no message.\<close>

definition saved_store :: store where
  "saved_store = snd (create [''id'' \<mapsto> Num 1, ''message'' \<mapsto> Str ''Saved''] initial_store)"

definition details_data :: obj where
  "details_data = [''id'' \<mapsto> Num 1, ''description'' \<mapsto> Str ''details'']"

text \<open>A store with one subscriber and the toast of identifier 0; a store with one
  subscriber and no toast, and data for a first \<open>create\<close> on it.\<close>

definition zero_store :: store where
  "zero_store =
     snd (create [''id'' \<mapsto> Num 0, ''message'' \<mapsto> Str ''first''] (subscribe 1 initial_store))"

definition hello_store :: store where
  "hello_store = subscribe 1 initial_store"

definition hello_data :: obj where
  "hello_data = [''message'' \<mapsto> Str ''hello'']"


text \<open>The data of the loading toast \<open>promise\<close> creates, and of the toast that
  replaces it.\<close>

definition loading_data :: "jsval \<Rightarrow> obj \<Rightarrow> obj" where
  "loading_data p data =
     data(''promise'' \<mapsto> p, ''type'' \<mapsto> Str ''loading'',
          ''message'' \<mapsto> property data ''loading'',
          ''description'' \<mapsto>
            (if \<not> is_function (property data ''description'')
             then property data ''description'' else Undefined))"

definition replacement_data :: "jsval \<Rightarrow> string \<Rightarrow> jsval \<Rightarrow> jsval \<Rightarrow> obj" where
  "replacement_data ident type message description =
     [''id'' \<mapsto> ident, ''type'' \<mapsto> Str type, ''message'' \<mapsto> message,
      ''description'' \<mapsto> description]"

text \<open>Option functions that throw when called, and that return; options whose
  \<open>success\<close> is a function, options with the strings \<open>"L"\<close> and \<open>"S"\<close>, and options
  with \<open>loading\<close> alone.\<close>

definition throwing :: "nat \<Rightarrow> jsval \<Rightarrow> outcome" where
  "throwing f arg = Rejected (Str ''boom'')"

definition plain_calls :: "nat \<Rightarrow> jsval \<Rightarrow> outcome" where
  "plain_calls f arg = Resolved (Str ''done'')"

definition throwing_options :: obj where
  "throwing_options = [''loading'' \<mapsto> Str ''L'', ''success'' \<mapsto> Fun 0]"

definition plain_options :: obj where
  "plain_options = [''loading'' \<mapsto> Str ''L'', ''success'' \<mapsto> Str ''S'']"

definition loading_only :: obj where
  "loading_only = [''loading'' \<mapsto> Str ''L'']"

text \<open>Options with \<open>loading\<close> and the identifier 0, and a store with one subscriber
  and the toast of identifier 5.\<close>

definition loading_id_zero :: obj where
  "loading_id_zero = [''loading'' \<mapsto> Str ''L'', ''id'' \<mapsto> Num 0]"

definition five_store :: store where
  "five_store =
     snd (create [''id'' \<mapsto> Num 5, ''message'' \<mapsto> Str ''second''] (subscribe 1 initial_store))"





chapter \<open>Properties\<close>

section \<open>Height offsets\<close>

lemma offset_loop_acc:
  "offset_loop hs i gap acc =
     acc + sum_list (map (\<lambda>h. height h + gap) (takeWhile (\<lambda>h. toastId h \<noteq> i) hs))"
  by (induction hs arbitrary: acc) simp_all

lemma takeWhile_absent:
  "i \<notin> toastId ` set hs \<Longrightarrow> takeWhile (\<lambda>h. toastId h \<noteq> i) hs = hs"
  by (induction hs) auto

text \<open>
  C2, as the spec states it, fails where the identifier is not in the list: the loop of
  \<open>offset\<close> then never breaks and returns the sum over every entry. For the list
  \<open>[{a,40},{b,30},{c,20}]\<close> and gap 10 the absent identifier \<open>z\<close> gets 120, not 0.
\<close>

theorem C2_offset_absent_counterexample:
  "Str ''z'' \<notin> toastId ` set abc_heights \<and> Heights_offset abc_heights (Str ''z'') 10 = 120"
  by (simp add: abc_heights_def Heights_offset_def)

text \<open>
  C2, amended: for every list of height entries and every gap, \<open>offset(id, gap)\<close> is the
  sum of \<open>height + gap\<close> over the entries strictly before the first occurrence of
  \<open>id\<close>; it is 0 when \<open>id\<close> is the front entry, and when \<open>id\<close> is not in the list
  it is the sum over all entries. For \<open>[{a,40},{b,30},{c,20}]\<close> and gap 10 the offsets
  of a, b, c are 0, 50, 90, and after \<open>remove(a)\<close> the offset of b is 0.
\<close>

theorem C2_offset:
  "Heights_offset hs i gap =
     sum_list (map (\<lambda>h. height h + gap) (takeWhile (\<lambda>h. toastId h \<noteq> i) hs))
   \<and> (\<forall>h hs'. hs = h # hs' \<and> toastId h = i \<longrightarrow> Heights_offset hs i gap = 0)
   \<and> (i \<notin> toastId ` set hs \<longrightarrow>
        Heights_offset hs i gap = sum_list (map (\<lambda>h. height h + gap) hs))
   \<and> Heights_offset abc_heights (Str ''a'') 10 = 0
   \<and> Heights_offset abc_heights (Str ''b'') 10 = 50
   \<and> Heights_offset abc_heights (Str ''c'') 10 = 90
   \<and> Heights_offset (Heights_remove (Str ''a'') abc_heights) (Str ''b'') 10 = 0"
proof -
  have general: "Heights_offset hs i gap =
      sum_list (map (\<lambda>h. height h + gap) (takeWhile (\<lambda>h. toastId h \<noteq> i) hs))"
    by (simp add: Heights_offset_def offset_loop_acc)
  have front: "\<forall>h hs'. hs = h # hs' \<and> toastId h = i \<longrightarrow> Heights_offset hs i gap = 0"
    by (simp add: Heights_offset_def)
  have absent: "i \<notin> toastId ` set hs \<longrightarrow>
      Heights_offset hs i gap = sum_list (map (\<lambda>h. height h + gap) hs)"
    by (auto simp: general takeWhile_absent)
  have examples: "Heights_offset abc_heights (Str ''a'') 10 = 0"
    "Heights_offset abc_heights (Str ''b'') 10 = 50"
    "Heights_offset abc_heights (Str ''c'') 10 = 90"
    "Heights_offset (Heights_remove (Str ''a'') abc_heights) (Str ''b'') 10 = 0"
    by (simp_all add: abc_heights_def Heights_offset_def Heights_remove_def)
  from general front absent examples show ?thesis by blast
qed

theorem C2_offset_witness:
  "Heights_offset abc_heights (Str ''a'') 10 = 0
   \<and> Heights_offset abc_heights (Str ''z'') 10 = 120"
proof -
  have front: "abc_heights = hd abc_heights # tl abc_heights \<and> toastId (hd abc_heights) = Str ''a''"
    by (simp add: abc_heights_def)
  have absent: "Str ''z'' \<notin> toastId ` set abc_heights"
    by (simp add: abc_heights_def)
  have total: "sum_list (map (\<lambda>h. height h + 10) abc_heights) = 120"
    by (simp add: abc_heights_def)
  from C2_offset [of abc_heights "Str ''a''" 10] front
  have a: "Heights_offset abc_heights (Str ''a'') 10 = 0" by blast
  from C2_offset [of abc_heights "Str ''z''" 10] absent total
  have z: "Heights_offset abc_heights (Str ''z'') 10 = 120" by simp
  from a z show ?thesis by simp
qed

section \<open>The autoclose timer\<close>







section \<open>The swipe gesture\<close>

declare handleEvent.simps [simp del]


























section \<open>The store: create\<close>

declare create_loop.simps [simp del]

lemma property_simps [simp]:
  "property (m(k \<mapsto> v)) k' = (if k' = k then v else property m k')"
  "property Map.empty k = Undefined"
  by (simp_all add: property_def)

lemma property_map_add:
  "property (m ++ n) k = (case n k of None \<Rightarrow> property m k | Some v \<Rightarrow> v)"
  by (simp add: property_def map_add_def split: option.splits)

lemma create_loop_eq:
  "create_loop data ident dis i ae st =
     (ae \<or> (\<exists>t \<in> set (drop i (toasts st)). property t ''id'' = ident),
      st\<lparr> toasts := take i (toasts st) @
             map (\<lambda>t. if property t ''id'' = ident then merged_stored t data ident dis else t)
               (drop i (toasts st)),
          delivered := delivered st @
             concat (map (\<lambda>t. to_all (subscribers st) (merged_published t data ident))
                       (filter (\<lambda>t. property t ''id'' = ident) (drop i (toasts st)))) \<rparr>)"
proof (induction data ident dis i ae st rule: create_loop.induct)
  case (1 data ident dis i ae st)
  show ?case
  proof (cases "i < length (toasts st)")
    case False
    then show ?thesis by (subst create_loop.simps) simp
  next
    case True
    note i = True
    have d: "drop i (toasts st) = toasts st ! i # drop (Suc i) (toasts st)"
      using i by (simp add: Cons_nth_drop_Suc)
    show ?thesis
    proof (cases "property (toasts st ! i) ''id'' = ident")
      case True
      let ?st' = "(publish (merged_published (toasts st ! i) data ident) st)
                \<lparr> toasts := (toasts st)[i := merged_stored (toasts st ! i) data ident dis] \<rparr>"
      from i True have "create_loop data ident dis i ae st
          = create_loop data ident dis (Suc i) True ?st'"
        by (subst create_loop.simps) (simp only: if_True simp_thms)
      also note "1.IH"(1) [OF i True]
      finally show ?thesis
        using i True
        by (simp add: d publish_def for_subscribers_def to_all_def
              take_Suc_conv_app_nth upd_conv_take_nth_drop)
    next
      case False
      from i False have "create_loop data ident dis i ae st
          = create_loop data ident dis (Suc i) ae st"
        by (subst create_loop.simps) (simp only: if_True if_False simp_thms)
      also note "1.IH"(2) [OF i False]
      finally show ?thesis
        using i False by (simp add: d take_Suc_conv_app_nth)
    qed
  qed
qed

lemma counter_after_fields [simp]:
  "toasts (counter_after data st) = toasts st"
  "subscribers (counter_after data st) = subscribers st"
  "delivered (counter_after data st) = delivered st"
  by (simp_all add: counter_after_def)

lemma create_unfold:
  "create data st =
     (case create_loop data (resolve_id data st)
             (nullish (property data ''dismissible'') (Bool True)) 0 False (counter_after data st) of
        (alreadyExists, st2) \<Rightarrow>
          if \<not> alreadyExists
          then (resolve_id data st, addToast (new_record data (resolve_id data st)) st2)
          else (resolve_id data st, st2))"
  by (simp add: create_def resolve_id_def counter_after_def next_counter_def new_record_def
      Let_def split_def)

lemma create_new:
  assumes "resolve_id data st \<notin> id_of ` set (toasts st)"
  shows "create data st =
     (resolve_id data st,
      (counter_after data st)
        \<lparr> delivered := delivered st @ to_all (subscribers st) (new_record data (resolve_id data st)),
           toasts := toasts st @ [new_record data (resolve_id data st)] \<rparr>)"
proof -
  have no: "\<forall>t \<in> set (toasts st). property t ''id'' \<noteq> resolve_id data st"
    using assms by (auto simp: id_of_def image_iff)
  then have f: "filter (\<lambda>t. property t ''id'' = resolve_id data st) (toasts st) = []"
    by (simp add: filter_empty_conv)
  have m: "map (\<lambda>t. if property t ''id'' = resolve_id data st
                    then merged_stored t data (resolve_id data st) d else t) (toasts st) = toasts st"
    for d using no by (simp add: map_idI)
  show ?thesis
    using no
    by (simp add: create_unfold create_loop_eq f m addToast_def publish_def
        for_subscribers_def to_all_def Let_def)
qed

lemma create_existing:
  assumes "resolve_id data st \<in> id_of ` set (toasts st)"
  shows "create data st =
     (resolve_id data st,
      (counter_after data st)
        \<lparr> toasts :=
             map (\<lambda>t. if property t ''id'' = resolve_id data st
                       then merged_stored t data (resolve_id data st)
                              (nullish (property data ''dismissible'') (Bool True))
                       else t) (toasts st),
           delivered := delivered st @
             concat (map (\<lambda>t. to_all (subscribers st) (merged_published t data (resolve_id data st)))
                       (filter (\<lambda>t. property t ''id'' = resolve_id data st) (toasts st))) \<rparr>)"
proof -
  have ex: "\<exists>t \<in> set (toasts st). property t ''id'' = resolve_id data st"
    using assms by (auto simp: id_of_def image_iff)
  show ?thesis
    using ex by (simp add: create_unfold create_loop_eq)
qed

lemma merged_stored_fields:
  "property (merged_stored t data ident dis) ''id'' = ident"
  "property (merged_stored t data ident dis) ''dismissible'' = dis"
  "property (merged_stored t data ident dis) ''title'' = property data ''message''"
  "k \<notin> {''id'', ''dismissible'', ''title''} \<Longrightarrow>
     merged_stored t data ident dis k = (case data k of None \<Rightarrow> t k | Some v \<Rightarrow> Some v)"
  by (auto simp: merged_stored_def map_add_def split: option.splits)

lemma merged_published_id: "property (merged_published t data ident) ''id'' = ident"
  by (simp add: merged_published_def)

lemma new_record_id: "property (new_record data ident) ''id'' = ident"
  by (simp add: new_record_def)

lemma ids_after_create:
  "map id_of (toasts (snd (create data st))) =
     (if resolve_id data st \<in> id_of ` set (toasts st) then map id_of (toasts st)
      else map id_of (toasts st) @ [resolve_id data st])"
proof (cases "resolve_id data st \<in> id_of ` set (toasts st)")
  case True
  have "map id_of (map (\<lambda>t. if property t ''id'' = resolve_id data st
                       then merged_stored t data (resolve_id data st) d else t) (toasts st))
        = map id_of (toasts st)" for d
    by (rule nth_equalityI) (simp_all add: id_of_def merged_stored_fields)
  with True show ?thesis by (simp add: create_existing)
next
  case False
  then show ?thesis by (simp add: create_new id_of_def new_record_id)
qed

lemma create_keeps_distinct:
  "distinct (map id_of (toasts st)) \<Longrightarrow> distinct (map id_of (toasts (snd (create data st))))"
  by (simp add: ids_after_create)

lemma creates_keeps_distinct:
  "distinct (map id_of (toasts st)) \<Longrightarrow> distinct (map id_of (toasts (creates ds st)))"
  by (induction ds arbitrary: st) (simp_all add: create_keeps_distinct)

lemma map_only_index:
  assumes "i < length xs" "distinct (map f xs)" "f (xs ! i) = a"
  shows "map (\<lambda>x. if f x = a then g x else x) xs = xs[i := g (xs ! i)]"
proof (rule nth_equalityI)
  show "length (map (\<lambda>x. if f x = a then g x else x) xs) = length (xs[i := g (xs ! i)])"
    by simp
next
  fix j assume j: "j < length (map (\<lambda>x. if f x = a then g x else x) xs)"
  show "map (\<lambda>x. if f x = a then g x else x) xs ! j = xs[i := g (xs ! i)] ! j"
  proof (cases "j = i")
    case True
    with assms show ?thesis by simp
  next
    case False
    from nth_eq_iff_index_eq [of "map f xs" j i] assms j False
    have "f (xs ! j) \<noteq> a" by simp
    with j False show ?thesis by simp
  qed
qed

lemma create_in_place:
  assumes i: "i < length (toasts st)"
    and d: "distinct (map id_of (toasts st))"
    and m: "id_of (toasts st ! i) = resolve_id data st"
  shows "toasts (snd (create data st)) =
           (toasts st)[i := merged_stored (toasts st ! i) data (resolve_id data st)
                              (nullish (property data ''dismissible'') (Bool True))]"
proof -
  from i m have ex: "resolve_id data st \<in> id_of ` set (toasts st)"
    by (metis imageI nth_mem)
  have "map (\<lambda>t. if id_of t = resolve_id data st
                  then merged_stored t data (resolve_id data st)
                         (nullish (property data ''dismissible'') (Bool True)) else t) (toasts st)
        = (toasts st)[i := merged_stored (toasts st ! i) data (resolve_id data st)
                              (nullish (property data ''dismissible'') (Bool True))]"
    using i d m
    by (rule map_only_index [where f = id_of and a = "resolve_id data st"
          and g = "\<lambda>t. merged_stored t data (resolve_id data st)
                         (nullish (property data ''dismissible'') (Bool True))"])
  then show ?thesis by (simp add: create_existing [OF ex] id_of_def)
qed

lemma fst_create: "fst (create data st) = resolve_id data st"
  by (cases "resolve_id data st \<in> id_of ` set (toasts st)") (simp_all add: create_new create_existing)

section \<open>Uniqueness of identifiers under create\<close>

lemma initial_ids: "distinct (map id_of (toasts initial_store))"
  by (simp add: initial_store_def)

lemma saved_store_value:
  "saved_store = \<lparr> toastsCounter = 1, subscribers = [],
       toasts = [new_record [''id'' \<mapsto> Num 1, ''message'' \<mapsto> Str ''Saved''] (Num 1)],
       delivered = [] \<rparr>"
proof -
  have r: "resolve_id [''id'' \<mapsto> Num 1, ''message'' \<mapsto> Str ''Saved''] initial_store = Num 1"
    by (simp add: resolve_id_def)
  have "resolve_id [''id'' \<mapsto> Num 1, ''message'' \<mapsto> Str ''Saved''] initial_store
          \<notin> id_of ` set (toasts initial_store)"
    by (simp add: initial_store_def)
  from create_new [OF this] show ?thesis
    unfolding saved_store_def r
    by (simp add: counter_after_def initial_store_def to_all_def)
qed

text \<open>
  C1, as the spec states it, says that a merging \<open>create\<close> keeps every field absent
  from the new data and re-sets only the identifier and \<open>dismissible\<close>. The stored
  \<open>title\<close> is re-set too, to \<open>data.message\<close>: a second \<open>create\<close> on identifier 1
  whose data has neither \<open>title\<close> nor \<open>message\<close> turns the stored title
  \<open>"Saved"\<close> into \<open>undefined\<close>.
\<close>

theorem C1_title_not_preserved_counterexample:
  "details_data ''title'' = None
   \<and> id_of (toasts saved_store ! 0) = resolve_id details_data saved_store
   \<and> property (toasts saved_store ! 0) ''title'' = Str ''Saved''
   \<and> property (toasts (snd (create details_data saved_store)) ! 0) ''title'' = Undefined"
proof -
  have r: "resolve_id details_data saved_store = Num 1"
    by (simp add: resolve_id_def details_data_def)
  have i: "id_of (toasts saved_store ! 0) = resolve_id details_data saved_store"
    unfolding r by (simp add: saved_store_value id_of_def new_record_def)
  have len: "0 < length (toasts saved_store)" and dist: "distinct (map id_of (toasts saved_store))"
    by (simp_all add: saved_store_value)
  have old: "property (toasts saved_store ! 0) ''title'' = Str ''Saved''"
    by (simp add: saved_store_value new_record_def property_map_add)
  have "toasts (snd (create details_data saved_store)) ! 0 =
      merged_stored (toasts saved_store ! 0) details_data (resolve_id details_data saved_store)
        (nullish (property details_data ''dismissible'') (Bool True))"
    unfolding create_in_place [OF len dist i] using len by (rule nth_list_update_eq)
  then have "property (toasts (snd (create details_data saved_store)) ! 0) ''title'' =
      property details_data ''message''"
    by (simp only: merged_stored_fields)
  then have new: "property (toasts (snd (create details_data saved_store)) ! 0) ''title'' = Undefined"
    by (simp add: details_data_def)
  from i old new show ?thesis by (simp add: details_data_def)
qed

text \<open>
  C1, amended: after every sequence of \<open>create\<close> calls on the initial store the stored
  identifiers are pairwise distinct, and \<open>create\<close> keeps them distinct from any store
  where they are. A \<open>create\<close> whose resolved identifier matches a stored toast appends
  nothing (the list keeps its length); with distinct identifiers it returns the
  identifier and replaces exactly the matching entry, in place, by the shallow merge:
  every field other than \<open>id\<close>, \<open>dismissible\<close> and \<open>title\<close> is the new data's when
  the data has it and the old one otherwise, \<open>id\<close> is the resolved identifier,
  \<open>dismissible\<close> is \<open>data.dismissible ?? true\<close>, and \<open>title\<close> is
  \<open>data.message\<close>.
\<close>

theorem C1_create_unique:
  "distinct (map id_of (toasts (creates ds initial_store)))
   \<and> (distinct (map id_of (toasts st)) \<longrightarrow>
        distinct (map id_of (toasts (snd (create data st)))))
   \<and> (resolve_id data st \<in> id_of ` set (toasts st) \<longrightarrow>
        length (toasts (snd (create data st))) = length (toasts st))
   \<and> (i < length (toasts st) \<and> distinct (map id_of (toasts st))
        \<and> id_of (toasts st ! i) = resolve_id data st \<longrightarrow>
        fst (create data st) = resolve_id data st
        \<and> toasts (snd (create data st)) =
            (toasts st)[i := merged_stored (toasts st ! i) data (resolve_id data st)
                               (nullish (property data ''dismissible'') (Bool True))]
        \<and> (\<forall>k. k \<notin> {''id'', ''dismissible'', ''title''} \<longrightarrow>
              (toasts (snd (create data st)) ! i) k =
                (case data k of None \<Rightarrow> (toasts st ! i) k | Some v \<Rightarrow> Some v))
        \<and> property (toasts (snd (create data st)) ! i) ''id'' = resolve_id data st
        \<and> property (toasts (snd (create data st)) ! i) ''dismissible'' =
             nullish (property data ''dismissible'') (Bool True)
        \<and> property (toasts (snd (create data st)) ! i) ''title'' = property data ''message'')"
proof -
  have seq: "distinct (map id_of (toasts (creates ds initial_store)))"
    by (rule creates_keeps_distinct) (rule initial_ids)
  have inv: "distinct (map id_of (toasts st)) \<longrightarrow>
        distinct (map id_of (toasts (snd (create data st))))"
    by (simp add: create_keeps_distinct)
  have len: "resolve_id data st \<in> id_of ` set (toasts st) \<longrightarrow>
        length (toasts (snd (create data st))) = length (toasts st)"
    by (simp add: create_existing)
  have merge: "fst (create data st) = resolve_id data st
        \<and> toasts (snd (create data st)) =
            (toasts st)[i := merged_stored (toasts st ! i) data (resolve_id data st)
                               (nullish (property data ''dismissible'') (Bool True))]
        \<and> (\<forall>k. k \<notin> {''id'', ''dismissible'', ''title''} \<longrightarrow>
              (toasts (snd (create data st)) ! i) k =
                (case data k of None \<Rightarrow> (toasts st ! i) k | Some v \<Rightarrow> Some v))
        \<and> property (toasts (snd (create data st)) ! i) ''id'' = resolve_id data st
        \<and> property (toasts (snd (create data st)) ! i) ''dismissible'' =
             nullish (property data ''dismissible'') (Bool True)
        \<and> property (toasts (snd (create data st)) ! i) ''title'' = property data ''message''"
    if i: "i < length (toasts st)" and d: "distinct (map id_of (toasts st))"
      and m: "id_of (toasts st ! i) = resolve_id data st"
    using i by (simp add: create_in_place [OF i d m] fst_create merged_stored_fields)
  from seq inv len merge show ?thesis by blast
qed

theorem C1_create_unique_witness:
  "distinct (map id_of (toasts (snd (create details_data saved_store))))
   \<and> length (toasts (snd (create details_data saved_store))) = 1
   \<and> fst (create details_data saved_store) = Num 1
   \<and> property (toasts (snd (create details_data saved_store)) ! 0) ''description'' = Str ''details''
   \<and> property (toasts (snd (create details_data saved_store)) ! 0) ''dismissible'' = Bool True
   \<and> property (toasts (snd (create details_data saved_store)) ! 0) ''id'' = Num 1"
proof -
  have r: "resolve_id details_data saved_store = Num 1"
    by (simp add: resolve_id_def details_data_def)
  have i: "id_of (toasts saved_store ! 0) = resolve_id details_data saved_store"
    unfolding r by (simp add: saved_store_value id_of_def new_record_def)
  have len: "0 < length (toasts saved_store)" and dist: "distinct (map id_of (toasts saved_store))"
    by (simp_all add: saved_store_value)
  have ex: "resolve_id details_data saved_store \<in> id_of ` set (toasts saved_store)"
    unfolding r by (simp add: saved_store_value id_of_def new_record_def)
  have desc: "details_data ''description'' = Some (Str ''details'')"
    and dis: "nullish (property details_data ''dismissible'') (Bool True) = Bool True"
    by (simp_all add: details_data_def nullish_def)
  have k: "''description'' \<notin> {''id'', ''dismissible'', ''title''}" by simp
  note T = C1_create_unique [of "[]" saved_store details_data 0]
  have prem: "0 < length (toasts saved_store) \<and> distinct (map id_of (toasts saved_store))
      \<and> id_of (toasts saved_store ! 0) = resolve_id details_data saved_store"
    using len dist i by (intro conjI)
  note a = T [THEN conjunct2, THEN conjunct1, THEN mp, OF dist]
  note b = T [THEN conjunct2, THEN conjunct2, THEN conjunct1, THEN mp, OF ex]
  note m = T [THEN conjunct2, THEN conjunct2, THEN conjunct2, THEN mp, OF prem]
  note c = m [THEN conjunct1]
  note d = m [THEN conjunct2, THEN conjunct2, THEN conjunct1]
  note f = m [THEN conjunct2, THEN conjunct2, THEN conjunct2, THEN conjunct1]
  note e = m [THEN conjunct2, THEN conjunct2, THEN conjunct2, THEN conjunct2, THEN conjunct1]
  from d [THEN spec, THEN mp, OF k]
  have g: "property (toasts (snd (create details_data saved_store)) ! 0) ''description''
      = Str ''details''"
    by (simp add: desc property_def)
  have h: "length (toasts saved_store) = 1" by (simp add: saved_store_value)
  from a b c e f g h show ?thesis by (simp only: r dis simp_thms)
qed

section \<open>The frozen offset of a removed toast\<close>

lemma frozen_offset_nonzero:
  "removed t \<Longrightarrow> offsetBeforeRemove t = Some x \<Longrightarrow> x \<noteq> 0 \<Longrightarrow>
   fst (updateOffset (t\<lparr> heights := hs \<rparr>)) = x"
  by (simp add: updateOffset_def truthy_num_def)

text \<open>
  C6 on the code: the front toast \<open>a\<close> of the stack \<open>[{a,40},{b,30}]\<close> is removed.
  \<open>deleteToast\<close> freezes \<open>offsetBeforeRemove = 0\<close>; the test
  \<open>this.#removed && this.#offsetBeforeRemove\<close> reads the frozen 0 as absent, so the
  offset query made by the height event of the removal itself, and every later one,
  asks the height list, where \<open>a\<close> is no longer found: the query returns 44 (the
  height of \<open>b\<close> plus the gap 14), and 78 once a toast \<open>c\<close> of height 20 is added.
  A frozen offset other than 0 is returned unchanged (\<open>frozen_offset_nonzero\<close>).
\<close>

theorem C6_front_toast_offset_not_frozen:
  "removed (deleteToast front_toast)
   \<and> offsetBeforeRemove (deleteToast front_toast) = Some 0
   \<and> fst (updateOffset (deleteToast front_toast)) = 44
   \<and> style_offset (deleteToast front_toast) = Some 44
   \<and> fst (updateOffset ((deleteToast front_toast)
        \<lparr> heights := Heights_add \<lparr> height = 20, toastId = Str ''c'', position = None \<rparr>
                      (heights (deleteToast front_toast)) \<rparr>)) = 78"
  by (simp add: front_toast_def fresh_toast_def deleteToast_def updateOffset_def
      heights_remove_announce_def Heights_remove_def Heights_offset_def Heights_add_def
      setTimeout_def truthy_num_def GAP_def Let_def)

section \<open>dismiss\<close>

lemma dismiss_truthy:
  "truthy i \<Longrightarrow>
   dismiss i st = (i, st\<lparr> delivered := delivered st @ to_all (subscribers st) (dismiss_signal i) \<rparr>)"
  by (simp add: dismiss_def for_subscribers_def to_all_def)

lemma subscribed_initial:
  "subscribe s initial_store =
     \<lparr> toastsCounter = 1, subscribers = [Some s], toasts = [], delivered = [] \<rparr>"
  by (simp add: subscribe_def initial_store_def set_add_def)

lemma zero_store_value:
  "zero_store = \<lparr> toastsCounter = 1, subscribers = [Some 1],
       toasts = [new_record [''id'' \<mapsto> Num 0, ''message'' \<mapsto> Str ''first''] (Num 0)],
       delivered = [(1, new_record [''id'' \<mapsto> Num 0, ''message'' \<mapsto> Str ''first''] (Num 0))] \<rparr>"
proof -
  let ?d = "[''id'' \<mapsto> Num 0, ''message'' \<mapsto> Str ''first'']"
  let ?s = "\<lparr> toastsCounter = 1, subscribers = [Some 1], toasts = [], delivered = [] \<rparr>"
  have r: "resolve_id ?d ?s = Num 0"
    by (simp add: resolve_id_def)
  have "resolve_id ?d ?s \<notin> id_of ` set (toasts ?s)" by simp
  from create_new [OF this] show ?thesis
    unfolding zero_store_def subscribed_initial r
    by (simp add: counter_after_def to_all_def)
qed

lemma store_0_5_value:
  "store_0_5 = \<lparr> toastsCounter = 1, subscribers = [Some 1],
       toasts = [new_record [''id'' \<mapsto> Num 0, ''message'' \<mapsto> Str ''first''] (Num 0),
                 new_record [''id'' \<mapsto> Num 5, ''message'' \<mapsto> Str ''second''] (Num 5)],
       delivered = [(1, new_record [''id'' \<mapsto> Num 0, ''message'' \<mapsto> Str ''first''] (Num 0)),
                    (1, new_record [''id'' \<mapsto> Num 5, ''message'' \<mapsto> Str ''second''] (Num 5))] \<rparr>"
proof -
  let ?d = "[''id'' \<mapsto> Num 5, ''message'' \<mapsto> Str ''second'']"
  have z: "snd (create [''id'' \<mapsto> Num 0, ''message'' \<mapsto> Str ''first''] (subscribe 1 initial_store))
      = zero_store" by (simp add: zero_store_def)
  have r: "resolve_id ?d zero_store = Num 5"
    by (simp add: resolve_id_def)
  have "resolve_id ?d zero_store \<notin> id_of ` set (toasts zero_store)"
    unfolding r by (simp add: zero_store_value id_of_def new_record_def)
  from create_new [OF this] show ?thesis
    unfolding store_0_5_def z r
    by (simp add: zero_store_value counter_after_def to_all_def)
qed

text \<open>
  C7 on the code: the store holds toasts 0 and 5 and has one subscriber. \<open>dismiss(0)\<close>
  takes the branch for a call without identifier, since \<open>!0\<close> is true: it returns 0
  and the subscriber receives a dismiss signal for every stored toast, 0 and 5, instead
  of the single signal for 0. For a truthy identifier, \<open>dismiss\<close> sends exactly one
  signal to every subscriber, leaves the toasts alone and returns the identifier
  (\<open>dismiss_truthy\<close>).
\<close>

theorem C7_dismiss_zero:
  "map id_of (toasts store_0_5) = [Num 0, Num 5]
   \<and> entries (subscribers store_0_5) = [1]
   \<and> fst (dismiss (Num 0) store_0_5) = Num 0
   \<and> delivered (snd (dismiss (Num 0) store_0_5)) =
       delivered store_0_5 @ [(1, dismiss_signal (Num 0)), (1, dismiss_signal (Num 5))]"
  by (simp add: store_0_5_value dismiss_def for_subscribers_def id_of_def new_record_def)

section \<open>show\<close>




section \<open>When subscribers run\<close>

lemma hello_fresh: "resolve_id hello_data hello_store \<notin> id_of ` set (toasts hello_store)"
  by (simp add: hello_store_def subscribed_initial)

lemma hello_created:
  "create hello_data hello_store =
     (Num 1, \<lparr> toastsCounter = 2, subscribers = [Some 1],
               toasts = [new_record hello_data (Num 1)],
               delivered = [(1, new_record hello_data (Num 1))] \<rparr>)"
proof -
  have r: "resolve_id hello_data hello_store = Num 1"
    by (simp add: resolve_id_def hello_data_def hello_store_def subscribed_initial)
  show ?thesis
    unfolding create_new [OF hello_fresh] r
    by (simp add: hello_store_def subscribed_initial counter_after_def to_all_def hello_data_def)
qed

text \<open>
  C8, as stated, fails: \<open>create\<close> calls \<open>publish\<close> before its \<open>return\<close>. On a store
  with one subscriber and no delivery so far, the store that \<open>create\<close> leaves when it
  returns the identifier 1 already holds the call of the subscriber with the new toast.
\<close>

theorem C8_subscriber_called_before_return_counterexample:
  "entries (subscribers hello_store) = [1] \<and> delivered hello_store = []
   \<and> fst (create hello_data hello_store) = Num 1
   \<and> delivered (snd (create hello_data hello_store)) = [(1, new_record hello_data (Num 1))]"
  unfolding hello_created by (simp add: hello_store_def subscribed_initial)

text \<open>
  C8, amended: every call of \<open>create\<close> returns the resolved identifier, and by the
  time it returns, every subscriber has been called, in subscription order, with each
  object the call published; there is at least one such object and each carries the
  resolved identifier. When no stored toast matches, exactly the appended toast is
  published.
\<close>

theorem C8_create_publishes_before_return:
  "fst (create data st) = resolve_id data st
   \<and> (\<exists>published. published \<noteq> []
         \<and> (\<forall>r \<in> set published. id_of r = resolve_id data st)
         \<and> delivered (snd (create data st)) =
             delivered st @ concat (map (to_all (subscribers st)) published))
   \<and> (resolve_id data st \<notin> id_of ` set (toasts st) \<longrightarrow>
         delivered (snd (create data st)) =
           delivered st @ to_all (subscribers st) (new_record data (resolve_id data st))
         \<and> toasts (snd (create data st)) = toasts st @ [new_record data (resolve_id data st)])"
proof -
  let ?id = "resolve_id data st"
  have pub: "\<exists>published. published \<noteq> []
         \<and> (\<forall>r \<in> set published. id_of r = ?id)
         \<and> delivered (snd (create data st)) =
             delivered st @ concat (map (to_all (subscribers st)) published)"
  proof (cases "?id \<in> id_of ` set (toasts st)")
    case False
    have "[new_record data ?id] \<noteq> []
         \<and> (\<forall>r \<in> set [new_record data ?id]. id_of r = ?id)
         \<and> delivered (snd (create data st)) =
             delivered st @ concat (map (to_all (subscribers st)) [new_record data ?id])"
      by (simp add: create_new [OF False] id_of_def new_record_id)
    then show ?thesis by (rule exI)
  next
    case True
    let ?m = "filter (\<lambda>t. property t ''id'' = ?id) (toasts st)"
    let ?p = "map (\<lambda>t. merged_published t data ?id) ?m"
    from True have "?m \<noteq> []" by (auto simp: filter_empty_conv id_of_def)
    then have "?p \<noteq> []
         \<and> (\<forall>r \<in> set ?p. id_of r = ?id)
         \<and> delivered (snd (create data st)) =
             delivered st @ concat (map (to_all (subscribers st)) ?p)"
      by (simp add: create_existing [OF True] id_of_def merged_published_id comp_def)
    then show ?thesis by (rule exI)
  qed
  have new: "?id \<notin> id_of ` set (toasts st) \<longrightarrow>
         delivered (snd (create data st)) =
           delivered st @ to_all (subscribers st) (new_record data ?id)
         \<and> toasts (snd (create data st)) = toasts st @ [new_record data ?id]"
    by (simp add: create_new)
  from fst_create [of data st] pub new show ?thesis by (intro conjI)
qed

theorem C8_create_publishes_before_return_witness:
  "fst (create hello_data hello_store) = Num 1
   \<and> delivered (snd (create hello_data hello_store)) = [(1, new_record hello_data (Num 1))]
   \<and> map id_of (toasts (snd (create hello_data hello_store))) = [Num 1]"
proof -
  note T = C8_create_publishes_before_return [of hello_data hello_store]
  have r: "resolve_id hello_data hello_store = Num 1"
    by (simp add: resolve_id_def hello_data_def hello_store_def subscribed_initial)
  have s: "to_all (subscribers hello_store) x = [(1, x)]" "delivered hello_store = []"
    "toasts hello_store = []" for x
    by (simp_all add: hello_store_def subscribed_initial to_all_def)
  note n = T [THEN conjunct2, THEN conjunct2, THEN mp, OF hello_fresh]
  from T [THEN conjunct1] n [THEN conjunct1] n [THEN conjunct2]
  show ?thesis by (simp add: r s id_of_def new_record_id)
qed

section \<open>The promise adapter\<close>

lemma promise_begin_loading:
  "property d ''loading'' \<noteq> Undefined \<Longrightarrow>
   promise_begin p d st =
     \<lparr> loading_id = fst (create (loading_data p d) st),
       shouldDismiss = (fst (create (loading_data p d) st) \<noteq> Undefined),
       result = None, finally_called = False,
       store_of = snd (create (loading_data p d) st) \<rparr>"
  by (simp add: promise_begin_def loading_data_def split_def Let_def)

lemma resolve_id_defined: "resolve_id data st \<noteq> Undefined"
  by (cases "property data ''id''") (auto simp: resolve_id_def)

lemma promise_resolved_success:
  assumes "property d ''loading'' \<noteq> Undefined"
    and "property d ''success'' \<noteq> Undefined"
    and "\<not> isValidElement v"
    and "\<not> (isHttpResponse v \<and> \<not> response_ok v)"
    and "resolve_value calls (property d ''success'') v = Resolved m"
    and "resolve_value calls (property d ''description'') v = Resolved desc"
  shows "promise calls p (Resolved v) (Some d) st =
     Some \<lparr> loading_id = fst (create (loading_data p d) st),
            shouldDismiss = False,
            result = Some (Resolved v),
            finally_called = (property d ''finally'' \<noteq> Undefined \<and> property d ''finally'' \<noteq> Null),
            store_of = snd (create
               (replacement_data (fst (create (loading_data p d) st)) ''success'' m desc)
               (snd (create (loading_data p d) st))) \<rparr>"
proof -
  from assms(4) have h: "(isHttpResponse v \<and> \<not> response_ok v) = False" by simp
  show ?thesis
    using assms(1,2,3,5,6)
    by (simp add: h promise_def promise_settle_def promise_begin_loading then_handler_def
        replace_with_def create_in_def finally_handler_def replacement_data_def Let_def)
qed

lemma promise_resolved_success_throws:
  assumes "property d ''loading'' \<noteq> Undefined"
    and "property d ''success'' \<noteq> Undefined"
    and "property d ''error'' = Undefined"
    and "\<not> isValidElement v"
    and "\<not> (isHttpResponse v \<and> \<not> response_ok v)"
    and "resolve_value calls (property d ''success'') v = Rejected e"
  shows "promise calls p (Resolved v) (Some d) st =
     Some \<lparr> loading_id = fst (create (loading_data p d) st),
            shouldDismiss = False,
            result = Some (Rejected e),
            finally_called = (property d ''finally'' \<noteq> Undefined \<and> property d ''finally'' \<noteq> Null),
            store_of = snd (create (loading_data p d) st) \<rparr>"
proof -
  from assms(5) have h: "(isHttpResponse v \<and> \<not> response_ok v) = False" by simp
  show ?thesis
    using assms(1,2,3,4,6)
    by (simp add: h promise_def promise_settle_def promise_begin_loading then_handler_def
        replace_with_def catch_handler_def create_in_def finally_handler_def Let_def)
qed

lemma promise_rejected_no_error:
  assumes "property d ''loading'' \<noteq> Undefined"
    and "property d ''error'' = Undefined"
  shows "promise calls p (Rejected e) (Some d) st =
     Some \<lparr> loading_id = Undefined,
            shouldDismiss = True,
            result = Some (Rejected e),
            finally_called = (property d ''finally'' \<noteq> Undefined \<and> property d ''finally'' \<noteq> Null),
            store_of = snd (dismiss (fst (create (loading_data p d) st))
               (snd (create (loading_data p d) st))) \<rparr>"
  using assms
  by (simp add: promise_def promise_settle_def promise_begin_loading
      catch_handler_def finally_handler_def Let_def fst_create resolve_id_defined)

lemma filter_unique:
  "distinct (map f xs) \<Longrightarrow> a \<in> f ` set xs \<Longrightarrow> \<exists>t. filter (\<lambda>x. f x = a) xs = [t]"
proof (induction xs)
  case Nil
  then show ?case by simp
next
  case (Cons x xs)
  show ?case
  proof (cases "f x = a")
    case True
    from Cons.prems have "f x \<notin> f ` set xs" by simp
    have "\<forall>y \<in> set xs. f y \<noteq> a"
    proof
      fix y assume "y \<in> set xs"
      then have in_image: "f y \<in> f ` set xs" by (rule imageI)
      show "f y \<noteq> a"
      proof
        assume "f y = a"
        with True have "f y = f x" by simp
        with in_image have "f x \<in> f ` set xs" by simp
        with \<open>f x \<notin> f ` set xs\<close> show False by simp
      qed
    qed
    then have "filter (\<lambda>x. f x = a) xs = []" by (simp add: filter_empty_conv)
    with True show ?thesis by simp
  next
    case False
    with Cons show ?thesis by auto
  qed
qed

lemma create_subscribers: "subscribers (snd (create data st)) = subscribers st"
  by (cases "resolve_id data st \<in> id_of ` set (toasts st)")
     (simp_all add: create_new create_existing)

lemma created_is_stored: "resolve_id data st \<in> id_of ` set (toasts (snd (create data st)))"
proof -
  have "resolve_id data st \<in> set (map id_of (toasts (snd (create data st))))"
    unfolding ids_after_create by simp
  then show ?thesis by simp
qed

lemma resolve_id_valid:
  "is_number (resolve_id data st) \<or> is_nonempty_string (resolve_id data st)"
  by (simp add: resolve_id_def)

lemma resolve_id_given:
  "is_number i \<or> is_nonempty_string i \<Longrightarrow> data ''id'' = Some i \<Longrightarrow> resolve_id data st = i"
  by (simp add: resolve_id_def property_def)

lemma create_once:
  assumes d: "distinct (map id_of (toasts st))" and ty: "data ''type'' = Some ty"
  shows "\<exists>r. delivered (snd (create data st)) = delivered st @ to_all (subscribers st) r
            \<and> id_of r = resolve_id data st \<and> property r ''type'' = ty
            \<and> (data ''title'' = None \<longrightarrow> property r ''title'' = property data ''message'')"
proof (cases "resolve_id data st \<in> id_of ` set (toasts st)")
  case False
  let ?r = "new_record data (resolve_id data st)"
  have a: "property ?r ''type'' = ty"
    using ty by (simp add: new_record_def property_map_add)
  have b: "data ''title'' = None \<longrightarrow> property ?r ''title'' = property data ''message''"
    by (simp add: new_record_def property_map_add)
  have c: "delivered (snd (create data st)) = delivered st @ to_all (subscribers st) ?r"
    by (simp add: create_new [OF False])
  have e: "id_of ?r = resolve_id data st"
    by (simp add: id_of_def new_record_id)
  from c e a b show ?thesis by (intro exI [of _ ?r] conjI)
next
  case True
  from filter_unique [OF d True] obtain t
    where t: "filter (\<lambda>x. id_of x = resolve_id data st) (toasts st) = [t]" ..
  then have t': "filter (\<lambda>x. property x ''id'' = resolve_id data st) (toasts st) = [t]"
    by (simp add: id_of_def)
  let ?r = "merged_published t data (resolve_id data st)"
  have a: "property ?r ''type'' = ty"
    using ty by (simp add: merged_published_def property_map_add)
  have b: "data ''title'' = None \<longrightarrow> property ?r ''title'' = property data ''message''"
    by (simp add: merged_published_def)
  have c: "delivered (snd (create data st)) = delivered st @ to_all (subscribers st) ?r"
    by (simp add: create_existing [OF True] t')
  have e: "id_of ?r = resolve_id data st"
    by (simp add: id_of_def merged_published_id)
  from c e a b show ?thesis by (intro exI [of _ ?r] conjI)
qed

lemma hello_store_fields:
  "toasts hello_store = []" "delivered hello_store = []" "subscribers hello_store = [Some 1]"
  "toastsCounter hello_store = 1"
  by (simp_all add: hello_store_def subscribed_initial)

lemma five_store_value:
  "five_store = \<lparr> toastsCounter = 1, subscribers = [Some 1],
       toasts = [new_record [''id'' \<mapsto> Num 5, ''message'' \<mapsto> Str ''second''] (Num 5)],
       delivered = [(1, new_record [''id'' \<mapsto> Num 5, ''message'' \<mapsto> Str ''second''] (Num 5))] \<rparr>"
proof -
  let ?d = "[''id'' \<mapsto> Num 5, ''message'' \<mapsto> Str ''second'']"
  let ?s = "\<lparr> toastsCounter = 1, subscribers = [Some 1], toasts = [], delivered = [] \<rparr>"
  have r: "resolve_id ?d ?s = Num 5"
    by (simp add: resolve_id_def)
  have "resolve_id ?d ?s \<notin> id_of ` set (toasts ?s)" by simp
  from create_new [OF this] show ?thesis
    unfolding five_store_def subscribed_initial r
    by (simp add: counter_after_def to_all_def)
qed

text \<open>
  C4, as stated, fails when \<open>options.success\<close> is a function whose call throws (or
  whose promise rejects): \<open>shouldDismiss\<close> is already false, the \<open>catch\<close> handler
  finds no \<open>error\<close> option, and nothing follows the loading toast. With one
  subscriber, the subscriber is called once, the store keeps the single toast of type
  \<open>loading\<close>, and no success toast is created.

  It also fails in its second half when the loading toast has the identifier 0, which
  the options may give and \<open>create\<close> accepts: the operation rejects, there is no
  \<open>error\<close> option, and \<open>dismiss(0)\<close> takes the branch of a call without identifier.
  On a store that holds the toast 5, the subscriber receives after the loading object
  a dismiss signal for toast 5 and one for toast 0.
\<close>

theorem C4_promise_counterexample:
  "property throwing_options ''loading'' \<noteq> Undefined
   \<and> property throwing_options ''success'' \<noteq> Undefined
   \<and> \<not> isValidElement (Str ''value'') \<and> \<not> isHttpResponse (Str ''value'')
   \<and> (\<exists>a. promise throwing (Obj []) (Resolved (Str ''value'')) (Some throwing_options) hello_store
              = Some a
          \<and> map fst (delivered (store_of a)) = [1]
          \<and> map (\<lambda>r. property r ''type'') (toasts (store_of a)) = [Str ''loading'']
          \<and> \<not> shouldDismiss a)
   \<and> property loading_id_zero ''loading'' \<noteq> Undefined
   \<and> property loading_id_zero ''error'' = Undefined
   \<and> map id_of (toasts five_store) = [Num 5]
   \<and> (\<exists>a. promise plain_calls (Obj []) (Rejected (Str ''failed'')) (Some loading_id_zero) five_store
              = Some a
          \<and> map id_of (toasts (store_of a)) = [Num 5, Num 0]
          \<and> map snd (drop 2 (delivered (store_of a)))
               = [dismiss_signal (Num 5), dismiss_signal (Num 0)])"
proof -
  let ?ld = "loading_data (Obj []) throwing_options"
  have l: "property throwing_options ''loading'' \<noteq> Undefined"
    and s: "property throwing_options ''success'' \<noteq> Undefined"
    and e: "property throwing_options ''error'' = Undefined"
    and r: "resolve_value throwing (property throwing_options ''success'') (Str ''value'')
              = Rejected (Str ''boom'')"
    by (simp_all add: throwing_options_def resolve_value_def throwing_def)
  have v: "\<not> isValidElement (Str ''value'')"
    "\<not> (isHttpResponse (Str ''value'') \<and> \<not> response_ok (Str ''value''))"
    by simp_all
  have fresh: "resolve_id ?ld hello_store \<notin> id_of ` set (toasts hello_store)"
    by (simp add: hello_store_fields)
  have d: "map fst (delivered (snd (create ?ld hello_store))) = [1]"
    unfolding create_new [OF fresh] by (simp add: hello_store_fields to_all_def)
  have t: "map (\<lambda>r. property r ''type'') (toasts (snd (create ?ld hello_store))) = [Str ''loading'']"
    unfolding create_new [OF fresh]
    by (simp add: hello_store_fields new_record_def loading_data_def property_map_add)
  note P = promise_resolved_success_throws [OF l s e v r, of "Obj []" hello_store]
  have first: "\<exists>a. promise throwing (Obj []) (Resolved (Str ''value'')) (Some throwing_options) hello_store
              = Some a
          \<and> map fst (delivered (store_of a)) = [1]
          \<and> map (\<lambda>r. property r ''type'') (toasts (store_of a)) = [Str ''loading'']
          \<and> \<not> shouldDismiss a"
    unfolding P using d t by simp
  let ?lz = "loading_data (Obj []) loading_id_zero"
  have lz: "property loading_id_zero ''loading'' \<noteq> Undefined"
    and ez: "property loading_id_zero ''error'' = Undefined"
    by (simp_all add: loading_id_zero_def)
  have five: "map id_of (toasts five_store) = [Num 5]"
    by (simp add: five_store_value id_of_def new_record_def)
  have rz: "resolve_id ?lz five_store = Num 0"
    by (simp add: resolve_id_def loading_data_def loading_id_zero_def)
  have freshz: "resolve_id ?lz five_store \<notin> id_of ` set (toasts five_store)"
    unfolding rz by (simp add: five_store_value id_of_def new_record_def)
  have cz: "snd (create ?lz five_store) =
      five_store\<lparr> delivered := delivered five_store @ [(1, new_record ?lz (Num 0))],
                   toasts := toasts five_store @ [new_record ?lz (Num 0)] \<rparr>"
    unfolding create_new [OF freshz] rz
    by (simp add: counter_after_def loading_data_def loading_id_zero_def five_store_value
        to_all_def)
  have idz: "id_of (new_record ?lz (Num 0)) = Num 0"
    by (simp add: id_of_def new_record_id)
  have tz: "map id_of (toasts (snd (dismiss (Num 0) (snd (create ?lz five_store)))))
      = [Num 5, Num 0]"
    unfolding cz using idz
    by (simp add: dismiss_def for_subscribers_def five_store_value id_of_def new_record_id)
  have dz: "map snd (drop 2 (delivered (snd (dismiss (Num 0) (snd (create ?lz five_store))))))
      = [dismiss_signal (Num 5), dismiss_signal (Num 0)]"
    unfolding cz using idz
    by (simp add: dismiss_def for_subscribers_def five_store_value id_of_def new_record_id)
  note Q = promise_rejected_no_error [OF lz ez, of plain_calls "Obj []" "Str ''failed''" five_store]
  have second: "\<exists>a. promise plain_calls (Obj []) (Rejected (Str ''failed'')) (Some loading_id_zero)
              five_store = Some a
          \<and> map id_of (toasts (store_of a)) = [Num 5, Num 0]
          \<and> map snd (drop 2 (delivered (store_of a)))
               = [dismiss_signal (Num 5), dismiss_signal (Num 0)]"
    unfolding Q fst_create rz [symmetric] using tz dz by (simp add: rz)
  from l s v(1) first lz ez five second show ?thesis by simp
qed

text \<open>
  C4, amended. \<open>options.loading\<close> is given and the adapter runs to completion with no
  other store operation in between. If \<open>options.success\<close> is given, the operation
  resolves with a value that is neither an element nor a failing response, and the
  success message and the description resolve (they are plain values, or functions
  whose awaited calls fulfil), then the adapter's effect on the store is exactly
  \<open>create\<close> of the loading data followed by \<open>create\<close> of the success replacement
  under the identifier the first returned, and no dismiss is issued. If there is no
  \<open>error\<close> option and the operation rejects, the effect is exactly \<open>create\<close> of the
  loading data followed by \<open>dismiss\<close> of its identifier. Where the identifiers stored
  beforehand are pairwise distinct, each \<open>create\<close> publishes exactly one object to
  every subscriber: one of type \<open>loading\<close>, then one of type \<open>success\<close> with the same
  identifier and the resolved message as title. Where the identifier is truthy (it is
  unless it is the number 0), the \<open>dismiss\<close> publishes exactly the dismiss signal of
  that identifier to every subscriber and leaves the stored toasts as they are.
\<close>

theorem C4_promise_sequences:
  assumes loading: "property d ''loading'' \<noteq> Undefined"
  shows "(property d ''success'' \<noteq> Undefined \<and> \<not> isValidElement v
          \<and> \<not> (isHttpResponse v \<and> \<not> response_ok v)
          \<and> resolve_value calls (property d ''success'') v = Resolved m
          \<and> resolve_value calls (property d ''description'') v = Resolved desc
        \<longrightarrow> (\<exists>a.
              promise calls p (Resolved v) (Some d) st = Some a
              \<and> store_of a =
                  snd (create (replacement_data (resolve_id (loading_data p d) st) ''success'' m desc)
                         (snd (create (loading_data p d) st)))
              \<and> fst (create (loading_data p d) st) = resolve_id (loading_data p d) st
              \<and> \<not> shouldDismiss a
              \<and> (distinct (map id_of (toasts st)) \<longrightarrow>
                   (\<exists>l s. delivered (store_of a) =
                            delivered st @ to_all (subscribers st) l @ to_all (subscribers st) s
                      \<and> property l ''type'' = Str ''loading''
                      \<and> property s ''type'' = Str ''success''
                      \<and> id_of l = resolve_id (loading_data p d) st
                      \<and> id_of s = id_of l
                      \<and> property s ''title'' = m))))
    \<and> (property d ''error'' = Undefined
        \<longrightarrow> (\<exists>a.
              promise calls p (Rejected e) (Some d) st = Some a
              \<and> store_of a =
                  snd (dismiss (resolve_id (loading_data p d) st) (snd (create (loading_data p d) st)))
              \<and> fst (create (loading_data p d) st) = resolve_id (loading_data p d) st
              \<and> (distinct (map id_of (toasts st)) \<longrightarrow>
                   (\<exists>l. delivered (snd (create (loading_data p d) st)) =
                            delivered st @ to_all (subscribers st) l
                      \<and> property l ''type'' = Str ''loading''
                      \<and> id_of l = resolve_id (loading_data p d) st))
              \<and> (truthy (resolve_id (loading_data p d) st) \<longrightarrow>
                   delivered (store_of a) =
                     delivered (snd (create (loading_data p d) st))
                       @ to_all (subscribers st) (dismiss_signal (resolve_id (loading_data p d) st))
                   \<and> toasts (store_of a) = toasts (snd (create (loading_data p d) st)))))"
proof -
  let ?ld = "loading_data p d"
  let ?id = "resolve_id ?ld st"
  let ?st1 = "snd (create ?ld st)"
  have ty: "?ld ''type'' = Some (Str ''loading'')" by (simp add: loading_data_def)
  have subs1: "subscribers ?st1 = subscribers st" by (rule create_subscribers)
  have f: "fst (create ?ld st) = ?id" by (rule fst_create)
  have once: "\<exists>l. delivered ?st1 = delivered st @ to_all (subscribers st) l
                      \<and> property l ''type'' = Str ''loading'' \<and> id_of l = ?id"
    if dist: "distinct (map id_of (toasts st))"
  proof -
    from create_once [where data = ?ld and st = st, OF dist ty] obtain l
      where l: "delivered ?st1 = delivered st @ to_all (subscribers st) l
        \<and> id_of l = ?id \<and> property l ''type'' = Str ''loading''
        \<and> (?ld ''title'' = None \<longrightarrow> property l ''title'' = property ?ld ''message'')" ..
    note l1 = l [THEN conjunct1]
    note l2 = l [THEN conjunct2, THEN conjunct1]
    note l3 = l [THEN conjunct2, THEN conjunct2, THEN conjunct1]
    from l1 l3 l2 show ?thesis by (intro exI [of _ l] conjI)
  qed
  have part1: "\<exists>a.
              promise calls p (Resolved v) (Some d) st = Some a
              \<and> store_of a = snd (create (replacement_data ?id ''success'' m desc) ?st1)
              \<and> fst (create ?ld st) = ?id
              \<and> \<not> shouldDismiss a
              \<and> (distinct (map id_of (toasts st)) \<longrightarrow>
                   (\<exists>l s. delivered (store_of a) =
                            delivered st @ to_all (subscribers st) l @ to_all (subscribers st) s
                      \<and> property l ''type'' = Str ''loading''
                      \<and> property s ''type'' = Str ''success''
                      \<and> id_of l = ?id
                      \<and> id_of s = id_of l
                      \<and> property s ''title'' = m))"
    if succ: "property d ''success'' \<noteq> Undefined" and nv: "\<not> isValidElement v"
      and nh: "\<not> (isHttpResponse v \<and> \<not> response_ok v)"
      and rm: "resolve_value calls (property d ''success'') v = Resolved m"
      and rd: "resolve_value calls (property d ''description'') v = Resolved desc"
  proof -
    let ?rd = "replacement_data ?id ''success'' m desc"
    let ?a = "\<lparr> loading_id = fst (create ?ld st), shouldDismiss = False,
            result = Some (Resolved v),
            finally_called = (property d ''finally'' \<noteq> Undefined \<and> property d ''finally'' \<noteq> Null),
            store_of = snd (create (replacement_data (fst (create ?ld st)) ''success'' m desc) ?st1) \<rparr>"
    have p: "promise calls p (Resolved v) (Some d) st = Some ?a"
      using loading succ nv nh rm rd by (rule promise_resolved_success)
    have st2: "store_of ?a = snd (create ?rd ?st1)" by (simp add: f)
    have nd: "\<not> shouldDismiss ?a" by simp
    have pub: "\<exists>l s. delivered (store_of ?a) =
                            delivered st @ to_all (subscribers st) l @ to_all (subscribers st) s
                      \<and> property l ''type'' = Str ''loading''
                      \<and> property s ''type'' = Str ''success''
                      \<and> id_of l = ?id
                      \<and> id_of s = id_of l
                      \<and> property s ''title'' = m"
      if dist: "distinct (map id_of (toasts st))"
    proof -
      from once [OF dist] obtain l
        where l: "delivered ?st1 = delivered st @ to_all (subscribers st) l
                      \<and> property l ''type'' = Str ''loading'' \<and> id_of l = ?id" ..
      note l1 = l [THEN conjunct1]
      note l3 = l [THEN conjunct2, THEN conjunct1]
      note l2 = l [THEN conjunct2, THEN conjunct2]
      have dist1: "distinct (map id_of (toasts ?st1))"
        using dist by (rule create_keeps_distinct)
      have rty: "?rd ''type'' = Some (Str ''success'')" and rti: "?rd ''title'' = None"
        and rid: "?rd ''id'' = Some ?id" and rms: "property ?rd ''message'' = m"
        by (simp_all add: replacement_data_def)
      have same: "resolve_id ?rd ?st1 = ?id"
        using resolve_id_valid rid by (rule resolve_id_given [where data = ?rd])
      from create_once [where data = ?rd and st = ?st1, OF dist1 rty] obtain s
        where s: "delivered (snd (create ?rd ?st1)) = delivered ?st1 @ to_all (subscribers ?st1) s
          \<and> id_of s = resolve_id ?rd ?st1 \<and> property s ''type'' = Str ''success''
          \<and> (?rd ''title'' = None \<longrightarrow> property s ''title'' = property ?rd ''message'')" ..
      note s1 = s [THEN conjunct1]
      note s2 = s [THEN conjunct2, THEN conjunct1]
      note s3 = s [THEN conjunct2, THEN conjunct2, THEN conjunct1]
      note s4 = s [THEN conjunct2, THEN conjunct2, THEN conjunct2]
      have del: "delivered (store_of ?a) =
          delivered st @ to_all (subscribers st) l @ to_all (subscribers st) s"
        unfolding st2 s1 l1 subs1 by simp
      have ids: "id_of s = id_of l" using s2 same l2 by simp
      have ti: "property s ''title'' = m" using s4 rti rms by simp
      from del l3 s3 l2 ids ti show ?thesis
        by (intro exI [of _ l] exI [of _ s] conjI)
    qed
    then have pub': "distinct (map id_of (toasts st)) \<longrightarrow>
                   (\<exists>l s. delivered (store_of ?a) =
                            delivered st @ to_all (subscribers st) l @ to_all (subscribers st) s
                      \<and> property l ''type'' = Str ''loading''
                      \<and> property s ''type'' = Str ''success''
                      \<and> id_of l = ?id
                      \<and> id_of s = id_of l
                      \<and> property s ''title'' = m)" ..
    from p st2 f nd pub' show ?thesis
      by (intro exI [of _ ?a] conjI)
  qed
  have part2: "\<exists>a.
              promise calls p (Rejected e) (Some d) st = Some a
              \<and> store_of a = snd (dismiss ?id ?st1)
              \<and> fst (create ?ld st) = ?id
              \<and> (distinct (map id_of (toasts st)) \<longrightarrow>
                   (\<exists>l. delivered ?st1 = delivered st @ to_all (subscribers st) l
                      \<and> property l ''type'' = Str ''loading''
                      \<and> id_of l = ?id))
              \<and> (truthy ?id \<longrightarrow>
                   delivered (store_of a) =
                     delivered ?st1 @ to_all (subscribers st) (dismiss_signal ?id)
                   \<and> toasts (store_of a) = toasts ?st1)"
    if noerr: "property d ''error'' = Undefined"
  proof -
    let ?a = "\<lparr> loading_id = Undefined, shouldDismiss = True, result = Some (Rejected e),
            finally_called = (property d ''finally'' \<noteq> Undefined \<and> property d ''finally'' \<noteq> Null),
            store_of = snd (dismiss (fst (create ?ld st)) ?st1) \<rparr>"
    have p: "promise calls p (Rejected e) (Some d) st = Some ?a"
      using loading noerr by (rule promise_rejected_no_error)
    have st2: "store_of ?a = snd (dismiss ?id ?st1)" by (simp add: f)
    have pub: "distinct (map id_of (toasts st)) \<longrightarrow>
                   (\<exists>l. delivered ?st1 = delivered st @ to_all (subscribers st) l
                      \<and> property l ''type'' = Str ''loading''
                      \<and> id_of l = ?id)"
      using once ..
    have dis: "truthy ?id \<longrightarrow>
                   delivered (store_of ?a) =
                     delivered ?st1 @ to_all (subscribers st) (dismiss_signal ?id)
                   \<and> toasts (store_of ?a) = toasts ?st1"
    proof
      assume tr: "truthy ?id"
      show "delivered (store_of ?a) =
                     delivered ?st1 @ to_all (subscribers st) (dismiss_signal ?id)
                   \<and> toasts (store_of ?a) = toasts ?st1"
        unfolding st2 dismiss_truthy [OF tr] by (simp add: subs1)
    qed
    from p st2 f pub dis show ?thesis
      by (intro exI [of _ ?a] conjI)
  qed
  from part1 part2 show ?thesis by (intro conjI impI) (elim conjE, assumption+)+
qed

text \<open>On the store with one subscriber and no toast: with the options
  \<open>{loading: "L", success: "S"}\<close> and an operation that resolves, the subscriber is
  called twice and nothing is dismissed; with \<open>{loading: "L"}\<close> and an operation that
  rejects, the subscriber is called twice, the second time with the dismiss signal of
  the identifier 1.\<close>

theorem C4_promise_sequences_witness:
  "(\<exists>a. promise plain_calls (Obj []) (Resolved (Str ''value'')) (Some plain_options) hello_store
          = Some a
        \<and> map fst (delivered (store_of a)) = [1, 1] \<and> \<not> shouldDismiss a)
   \<and> (\<exists>a. promise plain_calls (Obj []) (Rejected (Str ''failed'')) (Some loading_only) hello_store
          = Some a
        \<and> map fst (delivered (store_of a)) = [1, 1]
        \<and> snd (last (delivered (store_of a))) = dismiss_signal (Num 1))"
proof -
  have dist: "distinct (map id_of (toasts hello_store))"
    by (simp add: hello_store_fields)
  have l1: "property plain_options ''loading'' \<noteq> Undefined"
    and l2: "property loading_only ''loading'' \<noteq> Undefined"
    by (simp_all add: plain_options_def loading_only_def)
  have pre1: "property plain_options ''success'' \<noteq> Undefined \<and> \<not> isValidElement (Str ''value'')
      \<and> \<not> (isHttpResponse (Str ''value'') \<and> \<not> response_ok (Str ''value''))
      \<and> resolve_value plain_calls (property plain_options ''success'') (Str ''value'')
           = Resolved (Str ''S'')
      \<and> resolve_value plain_calls (property plain_options ''description'') (Str ''value'')
           = Resolved Undefined"
    by (simp add: plain_options_def resolve_value_def)
  have id2: "resolve_id (loading_data (Obj []) loading_only) hello_store = Num 1"
    by (simp add: resolve_id_def loading_data_def loading_only_def hello_store_fields)
  have pre2: "property loading_only ''error'' = Undefined"
    by (simp add: loading_only_def)
  have tr2: "truthy (resolve_id (loading_data (Obj []) loading_only) hello_store)"
    unfolding id2 by simp
  from C4_promise_sequences [OF l1, THEN conjunct1, THEN mp, OF pre1, of "Obj []" hello_store]
  obtain a
    where a: "promise plain_calls (Obj []) (Resolved (Str ''value'')) (Some plain_options) hello_store
                = Some a"
      and n: "\<not> shouldDismiss a"
      and pub: "distinct (map id_of (toasts hello_store)) \<longrightarrow>
                (\<exists>l s. delivered (store_of a) =
                   delivered hello_store @ to_all (subscribers hello_store) l
                     @ to_all (subscribers hello_store) s
                   \<and> property l ''type'' = Str ''loading''
                   \<and> property s ''type'' = Str ''success''
                   \<and> id_of l = resolve_id (loading_data (Obj []) plain_options) hello_store
                   \<and> id_of s = id_of l
                   \<and> property s ''title'' = Str ''S'')"
    by (elim exE conjE)
  from pub [THEN mp, OF dist] obtain l s
    where d: "delivered (store_of a) =
                delivered hello_store @ to_all (subscribers hello_store) l
                  @ to_all (subscribers hello_store) s"
    by (elim exE conjE)
  from a d n have first: "\<exists>a. promise plain_calls (Obj []) (Resolved (Str ''value''))
          (Some plain_options) hello_store = Some a
        \<and> map fst (delivered (store_of a)) = [1, 1] \<and> \<not> shouldDismiss a"
    by (simp add: hello_store_fields to_all_def)
  from C4_promise_sequences [OF l2, THEN conjunct2, THEN mp, OF pre2,
      of plain_calls "Obj []" "Str ''failed''" hello_store]
  obtain b
    where b: "promise plain_calls (Obj []) (Rejected (Str ''failed'')) (Some loading_only) hello_store
                = Some b"
      and pub2: "distinct (map id_of (toasts hello_store)) \<longrightarrow>
                (\<exists>l. delivered (snd (create (loading_data (Obj []) loading_only) hello_store)) =
                       delivered hello_store @ to_all (subscribers hello_store) l
                   \<and> property l ''type'' = Str ''loading''
                   \<and> id_of l = resolve_id (loading_data (Obj []) loading_only) hello_store)"
      and dis: "truthy (resolve_id (loading_data (Obj []) loading_only) hello_store) \<longrightarrow>
                 delivered (store_of b) =
                   delivered (snd (create (loading_data (Obj []) loading_only) hello_store))
                     @ to_all (subscribers hello_store)
                         (dismiss_signal (resolve_id (loading_data (Obj []) loading_only) hello_store))
                 \<and> toasts (store_of b) =
                     toasts (snd (create (loading_data (Obj []) loading_only) hello_store))"
    by (elim exE conjE)
  from pub2 [THEN mp, OF dist] obtain k
    where k: "delivered (snd (create (loading_data (Obj []) loading_only) hello_store)) =
                delivered hello_store @ to_all (subscribers hello_store) k"
    by (elim exE conjE)
  from dis [THEN mp, OF tr2, THEN conjunct1]
  have e: "delivered (store_of b) =
      delivered hello_store @ to_all (subscribers hello_store) k
        @ to_all (subscribers hello_store) (dismiss_signal (Num 1))"
    unfolding k id2 by simp
  from b e have second: "\<exists>a. promise plain_calls (Obj []) (Rejected (Str ''failed''))
          (Some loading_only) hello_store = Some a
        \<and> map fst (delivered (store_of a)) = [1, 1]
        \<and> snd (last (delivered (store_of a))) = dismiss_signal (Num 1)"
    by (simp add: hello_store_fields to_all_def)
  from first second show ?thesis by (rule conjI)
qed

section \<open>Dispatch over a changing subscriber set\<close>

lemma entries_append [simp]: "entries (xs @ ys) = entries xs @ entries ys"
  by (induction xs rule: entries.induct) simp_all



lemma to_all_append: "to_all (xs @ ys) data = to_all xs data @ to_all ys data"
  by (simp add: to_all_def)

















end
